theory Spec2Isabelle
  imports Complex_Main "HOL-Library.Multiset" "HOL-Library.Log_Nat"
begin

section \<open>The vineyard sensor API (server.js)\<close>

text \<open>
  server.js holds three successive revisions of one Express server (v7, v11 and the
  cloud-only Knox Vineyards revision). Where a function occurs in several revisions the
  last declaration is the one the properties are about: \<open>parseEcowittCloudData\<close>,
  \<open>calculateStats\<close> and the read routes come from the last revision,
  \<open>parseEcowittData\<close> and the push route \<open>POST /api/ecowitt\<close> from v11 (they are the
  same text in v7 and absent from the last revision). The v11 declaration of
  \<open>parseEcowittCloudData\<close> is embedded next to the last one, under its own name.

  The built-in functions of the language that the source calls (\<open>parseFloat\<close>,
  \<open>parseInt\<close>, \<open>toFixed\<close>, \<open>sort\<close>, \<open>slice\<close>, \<open>Date\<close>) are written out as far as
  the source uses them.
\<close>

subsection \<open>JavaScript numbers\<close>

text \<open>
  A JavaScript number is modelled as an exact rational, an infinity or NaN, and
  arithmetic on finite values is exact. A number read from text is kept as the decimal
  that was written, which stands for the double nearest to it. In one place of the
  source the outcome depends on which double that is, \<open>toFixed\<close>, and there the
  nearest double is taken first (\<open>nearest_double\<close> below). Overflow to an infinity,
  the exponent range of doubles and the sign of zero are outside this model.
\<close>

datatype jsnum = NaN | NInf | Fin rat | PInf

fun num_neg :: "jsnum \<Rightarrow> jsnum" where
  "num_neg NaN = NaN"
| "num_neg NInf = PInf"
| "num_neg PInf = NInf"
| "num_neg (Fin a) = Fin (- a)"

fun num_add :: "jsnum \<Rightarrow> jsnum \<Rightarrow> jsnum" where
  "num_add NaN _ = NaN"
| "num_add _ NaN = NaN"
| "num_add (Fin a) (Fin b) = Fin (a + b)"
| "num_add PInf NInf = NaN"
| "num_add NInf PInf = NaN"
| "num_add PInf _ = PInf"
| "num_add NInf _ = NInf"
| "num_add (Fin a) PInf = PInf"
| "num_add (Fin a) NInf = NInf"

definition num_sub :: "jsnum \<Rightarrow> jsnum \<Rightarrow> jsnum" where
  "num_sub a b = num_add a (num_neg b)"

text \<open>The sign of a number: \<open>-1\<close>, \<open>0\<close> or \<open>1\<close>; NaN has none.\<close>

fun num_sign :: "jsnum \<Rightarrow> int option" where
  "num_sign NaN = None"
| "num_sign NInf = Some (- 1)"
| "num_sign PInf = Some 1"
| "num_sign (Fin a) = Some (if a < 0 then - 1 else if a = 0 then 0 else 1)"

definition signed_inf :: "int \<Rightarrow> jsnum" where
  "signed_inf s = (if s < 0 then NInf else if s = 0 then NaN else PInf)"

fun num_mul :: "jsnum \<Rightarrow> jsnum \<Rightarrow> jsnum" where
  "num_mul (Fin a) (Fin b) = Fin (a * b)"
| "num_mul a b =
     (case (num_sign a, num_sign b) of
        (Some s, Some t) \<Rightarrow> signed_inf (s * t)
      | _ \<Rightarrow> NaN)"

text \<open>
  Division. A finite non-zero value divided by zero is an infinity with the sign of the
  dividend (the divisor is taken as \<open>+0\<close>); the source only ever divides by the constant
  \<open>9\<close> and by a positive array length.
\<close>

fun num_div :: "jsnum \<Rightarrow> jsnum \<Rightarrow> jsnum" where
  "num_div NaN _ = NaN"
| "num_div _ NaN = NaN"
| "num_div (Fin a) (Fin b) =
     (if b = 0 then signed_inf (if a < 0 then - 1 else if a = 0 then 0 else 1)
      else Fin (a / b))"
| "num_div (Fin a) _ = Fin 0"
| "num_div PInf (Fin b) = (if b < 0 then NInf else PInf)"
| "num_div NInf (Fin b) = (if b < 0 then PInf else NInf)"
| "num_div _ _ = NaN"

text \<open>The relational operators: every comparison with NaN is false.\<close>

fun num_lt :: "jsnum \<Rightarrow> jsnum \<Rightarrow> bool" where
  "num_lt NaN _ = False"
| "num_lt _ NaN = False"
| "num_lt (Fin a) (Fin b) = (a < b)"
| "num_lt PInf _ = False"
| "num_lt _ NInf = False"
| "num_lt NInf _ = True"
| "num_lt (Fin a) PInf = True"

definition num_gt :: "jsnum \<Rightarrow> jsnum \<Rightarrow> bool" where
  "num_gt a b = num_lt b a"

text \<open>\<open>a >= b\<close> is false when either side is NaN and the negation of \<open>a < b\<close> otherwise.\<close>

definition num_ge :: "jsnum \<Rightarrow> jsnum \<Rightarrow> bool" where
  "num_ge a b = (a \<noteq> NaN \<and> b \<noteq> NaN \<and> \<not> num_lt a b)"

subsection \<open>Array.prototype.sort\<close>

text \<open>
  \<open>xs.sort(cmp)\<close> as Node's engine (V8, since version 7.0) runs it on an array without
  \<open>undefined\<close> entries: the leading run is counted and reversed when it is strictly
  descending, and every later element is placed by a binary search in the sorted prefix
  (\<open>CountAndMakeRun\<close> and \<open>BinaryInsertionSort\<close> of V8's array-sort). A comparator
  result that is NaN counts as \<open>0\<close>; the algorithm only asks whether the result is
  negative. V8 cuts an array of 64 or more elements into several runs and merges them;
  the sort is stable either way, so for a consistent comparator the outcome is the one
  computed here. For an inconsistent comparator the language leaves the order to the
  implementation, and this is what the implementation does on arrays shorter than 64.
\<close>

type_synonym 'a comparefn = "'a \<Rightarrow> 'a \<Rightarrow> jsnum"

definition order_negative :: "jsnum \<Rightarrow> bool" where
  "order_negative v = num_lt v (Fin 0)"

fun run_extend :: "'a comparefn \<Rightarrow> bool \<Rightarrow> 'a \<Rightarrow> 'a list \<Rightarrow> 'a list \<times> 'a list" where
  "run_extend cmp desc prev [] = ([], [])"
| "run_extend cmp desc prev (c # cs) =
     (if order_negative (cmp c prev) = desc
      then (case run_extend cmp desc c cs of (r, rest) \<Rightarrow> (c # r, rest))
      else ([], c # cs))"

fun count_and_make_run :: "'a comparefn \<Rightarrow> 'a list \<Rightarrow> 'a list \<times> 'a list" where
  "count_and_make_run cmp [] = ([], [])"
| "count_and_make_run cmp [x] = ([x], [])"
| "count_and_make_run cmp (x0 # x1 # xs) =
     (let desc = order_negative (cmp x1 x0)
      in case run_extend cmp desc x1 xs of
           (r, rest) \<Rightarrow> (if desc then rev (x0 # x1 # r) else x0 # x1 # r, rest))"

function insertion_point :: "'a comparefn \<Rightarrow> 'a \<Rightarrow> 'a list \<Rightarrow> nat \<Rightarrow> nat \<Rightarrow> nat" where
  "insertion_point cmp pivot xs left right =
     (if left < right
      then (let mid = left + (right - left) div 2
            in if order_negative (cmp pivot (xs ! mid))
               then insertion_point cmp pivot xs left mid
               else insertion_point cmp pivot xs (mid + 1) right)
      else left)"
  by pat_completeness auto
termination
  by (relation "measure (\<lambda>(cmp, pivot, xs, left, right). right - left)") auto

declare insertion_point.simps [simp del]

fun binary_insertion_sort :: "'a comparefn \<Rightarrow> 'a list \<Rightarrow> 'a list \<Rightarrow> 'a list" where
  "binary_insertion_sort cmp work [] = work"
| "binary_insertion_sort cmp work (pivot # rest) =
     (let left = insertion_point cmp pivot work 0 (length work)
      in binary_insertion_sort cmp (take left work @ pivot # drop left work) rest)"

definition array_sort :: "'a comparefn \<Rightarrow> 'a list \<Rightarrow> 'a list" where
  "array_sort cmp xs =
     (if length xs < 2 then xs
      else case count_and_make_run cmp xs of
             (run, rest) \<Rightarrow> binary_insertion_sort cmp run rest)"

subsection \<open>Metric values and calculateStats\<close>

text \<open>
  A metric field of a reading holds a number, \<open>null\<close>, or is absent (\<open>undefined\<close>):
  the parsers assign nothing else.
\<close>

datatype mval = MUndefined | MNull | MNum jsnum

text \<open>\<open>ToNumber\<close> on such a value, as the operators \<open>-\<close> and \<open>+\<close> apply it.\<close>

fun to_number :: "mval \<Rightarrow> jsnum" where
  "to_number MUndefined = NaN"
| "to_number MNull = Fin 0"
| "to_number (MNum n) = n"

text \<open>
  \<open>values.sort((a, b) => a - b)\<close>: \<open>undefined\<close> entries are never handed to the
  comparator and end up after all others.
\<close>

definition sort_values :: "mval list \<Rightarrow> mval list" where
  "sort_values vs =
     array_sort (\<lambda>a b. num_sub (to_number a) (to_number b)) (filter (\<lambda>v. v \<noteq> MUndefined) vs)
     @ filter (\<lambda>v. v = MUndefined) vs"

record stats =
  st_min :: mval
  st_max :: mval
  st_avg :: jsnum
  st_median :: mval
  st_count :: nat

text \<open>
  \<open>calculateStats\<close>; \<open>None\<close> is its \<open>null\<close>. The sort is in place, so \<open>sorted\<close> and
  \<open>values\<close> are one array and the sum runs over the sorted order.
\<close>

definition calculateStats :: "mval list \<Rightarrow> stats option" where
  "calculateStats vals =
     (if length vals = 0 then None
      else (let sorted = sort_values vals;
                sum = foldl (\<lambda>a b. num_add a (to_number b)) (Fin 0) sorted
            in Some \<lparr> st_min = sorted ! 0,
                      st_max = sorted ! (length sorted - 1),
                      st_avg = num_div sum (Fin (of_nat (length sorted))),
                      st_median = sorted ! (length sorted div 2),
                      st_count = length sorted \<rparr>))"

subsection \<open>Payload values\<close>

text \<open>
  What \<open>req.body\<close>, \<open>req.query\<close> and the cloud response hold: JSON values, with
  \<open>JUndefined\<close> for the result of reading a property that is not there. An object is
  the list of its properties (where a key is listed twice the first entry is the
  property). Strings are sequences of 8-bit code units.
\<close>

datatype json =
    JUndefined
  | JNull
  | JBool bool
  | JNum jsnum
  | JStr string
  | JArr "json list"
  | JObj "(string \<times> json) list"

text \<open>The truthiness test of \<open>if (v)\<close>, \<open>v ? a : b\<close>, \<open>v && w\<close> and \<open>v || w\<close>.\<close>

fun truthy :: "json \<Rightarrow> bool" where
  "truthy JUndefined = False"
| "truthy JNull = False"
| "truthy (JBool b) = b"
| "truthy (JNum n) = (n \<noteq> NaN \<and> n \<noteq> Fin 0)"
| "truthy (JStr s) = (s \<noteq> [])"
| "truthy (JArr xs) = True"
| "truthy (JObj kvs) = True"

definition js_or :: "json \<Rightarrow> json \<Rightarrow> json" where
  "js_or a b = (if truthy a then a else b)"

text \<open>
  \<open>v.key\<close> for the property names the parsers read. Reading a property of \<open>null\<close> or
  \<open>undefined\<close> throws a TypeError; of any other value that is not an object with that
  key it gives \<open>undefined\<close>.
\<close>

datatype error = TypeError

fun get :: "json \<Rightarrow> string \<Rightarrow> error + json" where
  "get JUndefined k = Inl TypeError"
| "get JNull k = Inl TypeError"
| "get (JObj kvs) k = Inr (case map_of kvs k of None \<Rightarrow> JUndefined | Some v \<Rightarrow> v)"
| "get v k = Inr JUndefined"

text \<open>
  The same read where the source has tested the receiver for truthiness just before, or
  where the receiver is the result of such a read: no TypeError can arise.
\<close>

definition field :: "json \<Rightarrow> string \<Rightarrow> json" where
  "field v k = (case get v k of Inl e \<Rightarrow> JUndefined | Inr w \<Rightarrow> w)"

subsection \<open>Reading numbers from strings\<close>

definition is_space :: "char \<Rightarrow> bool" where
  "is_space c = ((of_char c :: nat) \<in> set [9, 10, 11, 12, 13, 32, 160])"

definition is_digit :: "char \<Rightarrow> bool" where
  "is_digit c = (48 \<le> (of_char c :: nat) \<and> (of_char c :: nat) \<le> 57)"

definition digit_value :: "char \<Rightarrow> nat" where
  "digit_value c = of_char c - 48"

definition digits_value :: "string \<Rightarrow> nat" where
  "digits_value cs = foldl (\<lambda>a c. 10 * a + digit_value c) 0 cs"

fun parse_sign :: "string \<Rightarrow> bool \<times> string" where
  "parse_sign [] = (False, [])"
| "parse_sign (c # cs) =
     (if c = CHR ''-'' then (True, cs)
      else if c = CHR ''+'' then (False, cs)
      else (False, c # cs))"

text \<open>An exponent part \<open>e\<close> or \<open>E\<close>, an optional sign and at least one digit; none gives \<open>0\<close>.\<close>

definition exponent_part :: "string \<Rightarrow> int \<times> string" where
  "exponent_part cs =
     (case cs of
        [] \<Rightarrow> (0, cs)
      | c # t \<Rightarrow>
          if c = CHR ''e'' \<or> c = CHR ''E''
          then (case parse_sign t of
                  (neg, t') \<Rightarrow>
                    if takeWhile is_digit t' = [] then (0, cs)
                    else (if neg then - int (digits_value (takeWhile is_digit t'))
                          else int (digits_value (takeWhile is_digit t')),
                          dropWhile is_digit t'))
          else (0, cs))"

definition scale10 :: "rat \<Rightarrow> int \<Rightarrow> rat" where
  "scale10 m e = (if 0 \<le> e then m * 10 ^ nat e else m / 10 ^ nat (- e))"

text \<open>
  The longest prefix that is an unsigned \<open>StrDecimalLiteral\<close> (\<open>Infinity\<close>, or digits
  with an optional fraction and exponent), with its value and the text after it.
\<close>

definition str_decimal_prefix :: "string \<Rightarrow> (jsnum \<times> string) option" where
  "str_decimal_prefix cs =
     (if take 8 cs = ''Infinity'' then Some (PInf, drop 8 cs)
      else (let ip = takeWhile is_digit cs;
                r1 = dropWhile is_digit cs;
                dotted = (r1 \<noteq> [] \<and> hd r1 = CHR ''.'');
                fp = (if dotted then takeWhile is_digit (tl r1) else []);
                r2 = (if dotted then dropWhile is_digit (tl r1) else r1)
            in if ip = [] \<and> fp = [] then None
               else (case exponent_part r2 of
                       (e, r3) \<Rightarrow>
                         Some (Fin (scale10 (of_nat (digits_value (ip @ fp)))
                                            (e - int (length fp))), r3))))"

text \<open>\<open>parseFloat\<close> of a string: leading white space is skipped, what follows the number is ignored.\<close>

definition parse_float_str :: "string \<Rightarrow> jsnum" where
  "parse_float_str s =
     (case parse_sign (dropWhile is_space s) of
        (neg, r) \<Rightarrow>
          (case str_decimal_prefix r of
             None \<Rightarrow> NaN
           | Some (v, rest) \<Rightarrow> if neg then num_neg v else v))"

text \<open>
  \<open>parseFloat\<close> of a payload value, which is converted to a string first. A number
  reads back as itself. An array is joined with commas, and a comma ends every number, so
  only its first element is read. \<open>null\<close>, \<open>undefined\<close>, booleans and objects read as
  NaN.
\<close>

fun parseFloat :: "json \<Rightarrow> jsnum" where
  "parseFloat (JStr s) = parse_float_str s"
| "parseFloat (JNum n) = n"
| "parseFloat (JArr []) = NaN"
| "parseFloat (JArr (x # xs)) = parseFloat x"
| "parseFloat v = NaN"

text \<open>Digits of a radix up to 16, for \<open>parseInt\<close> and for the \<open>0x\<close>, \<open>0o\<close>, \<open>0b\<close> literals.\<close>

definition radix_digit :: "char \<Rightarrow> nat option" where
  "radix_digit c =
     (let n = (of_char c :: nat)
      in if 48 \<le> n \<and> n \<le> 57 then Some (n - 48)
         else if 97 \<le> n \<and> n \<le> 102 then Some (n - 87)
         else if 65 \<le> n \<and> n \<le> 70 then Some (n - 55)
         else None)"

definition is_radix_digit :: "nat \<Rightarrow> char \<Rightarrow> bool" where
  "is_radix_digit r c = (case radix_digit c of None \<Rightarrow> False | Some d \<Rightarrow> d < r)"

definition radix_value :: "nat \<Rightarrow> string \<Rightarrow> nat" where
  "radix_value r cs = foldl (\<lambda>a c. r * a + (case radix_digit c of None \<Rightarrow> 0 | Some d \<Rightarrow> d)) 0 cs"

definition has_prefix :: "char \<Rightarrow> char \<Rightarrow> string \<Rightarrow> bool" where
  "has_prefix lo up cs = (take 1 cs = ''0'' \<and> (take 1 (drop 1 cs) = [lo] \<or> take 1 (drop 1 cs) = [up]))"

text \<open>\<open>parseInt(s)\<close> without a radix: decimal, or hexadecimal after \<open>0x\<close>.\<close>

definition parse_int_str :: "string \<Rightarrow> jsnum" where
  "parse_int_str s =
     (case parse_sign (dropWhile is_space s) of
        (neg, r) \<Rightarrow>
          (let radix = (if has_prefix CHR ''x'' CHR ''X'' r then 16 else 10);
               body = (if has_prefix CHR ''x'' CHR ''X'' r then drop 2 r else r);
               z = takeWhile (is_radix_digit radix) body
           in if z = [] then NaN
              else Fin (of_int (if neg then - int (radix_value radix z) else int (radix_value radix z)))))"

text \<open>
  \<open>ToNumber\<close> of a string, as \<open>*\<close> applies it: white space is trimmed at both ends, the
  empty text is \<open>0\<close>, and the whole text must be one literal.
\<close>

definition trim :: "string \<Rightarrow> string" where
  "trim s = rev (dropWhile is_space (rev (dropWhile is_space s)))"

definition string_to_number :: "string \<Rightarrow> jsnum" where
  "string_to_number s =
     (let t = trim s
      in if t = [] then Fin 0
         else if has_prefix CHR ''x'' CHR ''X'' t then
           (if drop 2 t \<noteq> [] \<and> list_all (is_radix_digit 16) (drop 2 t)
            then Fin (of_nat (radix_value 16 (drop 2 t))) else NaN)
         else if has_prefix CHR ''o'' CHR ''O'' t then
           (if drop 2 t \<noteq> [] \<and> list_all (is_radix_digit 8) (drop 2 t)
            then Fin (of_nat (radix_value 8 (drop 2 t))) else NaN)
         else if has_prefix CHR ''b'' CHR ''B'' t then
           (if drop 2 t \<noteq> [] \<and> list_all (is_radix_digit 2) (drop 2 t)
            then Fin (of_nat (radix_value 2 (drop 2 t))) else NaN)
         else (case parse_sign t of
                 (neg, r) \<Rightarrow>
                   (case str_decimal_prefix r of
                      Some (v, []) \<Rightarrow> if neg then num_neg v else v
                    | _ \<Rightarrow> NaN)))"

text \<open>
  The double nearest to a rational: the significand is cut to 53 bits, rounding to the
  nearest and a tie to the even significand. \<open>floor_log2 a\<close> is the exponent \<open>e\<close> with
  \<open>2^e \<le> a < 2^(e+1)\<close>; \<open>bitlen n\<close> is the number of binary digits of \<open>n\<close>.
\<close>

definition floor_log2 :: "rat \<Rightarrow> int" where
  "floor_log2 a =
     (if 1 \<le> a then bitlen \<lfloor>a\<rfloor> - 1 else - bitlen (\<lceil>1 / a\<rceil> - 1))"

definition pow2 :: "int \<Rightarrow> rat" where
  "pow2 e = (if 0 \<le> e then 2 ^ nat e else 1 / 2 ^ nat (- e))"

definition round_half_even :: "rat \<Rightarrow> int" where
  "round_half_even m =
     (let n = \<lfloor>m\<rfloor>; r = m - of_int n
      in if r < 1 / 2 then n
         else if 1 / 2 < r then n + 1
         else if even n then n else n + 1)"

definition nearest_double :: "rat \<Rightarrow> rat" where
  "nearest_double x =
     (if x = 0 then 0
      else (let a = \<bar>x\<bar>;
                ulp = pow2 (floor_log2 a - 52);
                n = round_half_even (a / ulp)
            in if x < 0 then - (of_int n * ulp) else of_int n * ulp))"

text \<open>
  \<open>parseFloat(x.toFixed(1))\<close>, where \<open>x\<close> is the double that the number stands for:
  \<open>toFixed(1)\<close> prints the multiple of one tenth nearest to the exact value of \<open>x\<close>
  without its sign, the larger one on a tie, and puts the sign back; from \<open>10^21\<close> on
  it prints the number itself. \<open>parseFloat\<close> then reads that decimal.
\<close>

fun toFixed1 :: "jsnum \<Rightarrow> jsnum" where
  "toFixed1 (Fin q) =
     (let x = nearest_double q
      in if 10 ^ 21 \<le> \<bar>x\<bar> then Fin x
         else if x < 0 then Fin (- (of_int \<lfloor>(- x) * 10 + 1 / 2\<rfloor> / 10))
         else Fin (of_int \<lfloor>x * 10 + 1 / 2\<rfloor> / 10))"
| "toFixed1 v = v"

subsection \<open>Readings and the two parsers\<close>

text \<open>
  A parsed reading. \<open>timestamp\<close> is the clock reading in milliseconds (the source keeps
  its ISO text, which \<open>new Date\<close> reads back to the same instant). \<open>temperature\<close> and
  \<open>humidity\<close> are a number or not set (\<open>None\<close> is \<open>undefined\<close>); the soil and leaf
  fields can also be \<open>null\<close>.
\<close>

record reading =
  timestamp :: int
  raw :: json
  temperature :: "jsnum option"
  humidity :: "jsnum option"
  soilMoisture1 :: mval
  soilMoisture2 :: mval
  leafWetness :: mval
  stationtype :: json
  passkey :: json
  dateutc :: json

definition fahrenheit_to_celsius :: "jsnum \<Rightarrow> jsnum" where
  "fahrenheit_to_celsius v = num_div (num_mul (num_sub v (Fin 32)) (Fin 5)) (Fin 9)"

text \<open>
  \<open>parseEcowittData\<close> (flat payloads). Its first property read throws when \<open>data\<close> is
  \<open>null\<close> or \<open>undefined\<close>.
\<close>

definition parseEcowittData :: "int \<Rightarrow> json \<Rightarrow> error + reading" where
  "parseEcowittData now data =
     (case get data ''tempf'' of
        Inl e \<Rightarrow> Inl e
      | Inr tempf \<Rightarrow>
          Inr \<lparr> timestamp = now,
                raw = data,
                temperature =
                  (if truthy tempf then Some (fahrenheit_to_celsius (parseFloat tempf))
                   else if truthy (field data ''temp1f'')
                     then Some (fahrenheit_to_celsius (parseFloat (field data ''temp1f'')))
                   else if truthy (field data ''tempinf'')
                     then Some (fahrenheit_to_celsius (parseFloat (field data ''tempinf'')))
                   else if truthy (field data ''temp'')
                     then Some (parseFloat (field data ''temp''))
                   else None),
                humidity =
                  (if truthy (field data ''humidity'')
                     then Some (parseFloat (field data ''humidity''))
                   else if truthy (field data ''humidity1'')
                     then Some (parseFloat (field data ''humidity1''))
                   else if truthy (field data ''humidityin'')
                     then Some (parseFloat (field data ''humidityin''))
                   else None),
                soilMoisture1 =
                  (if truthy (field data ''soilmoisture1'')
                     then MNum (parseFloat (field data ''soilmoisture1''))
                   else if truthy (field data ''soilhum1'')
                     then MNum (parseFloat (field data ''soilhum1''))
                   else MNull),
                soilMoisture2 =
                  (if truthy (field data ''soilmoisture2'')
                     then MNum (parseFloat (field data ''soilmoisture2''))
                   else if truthy (field data ''soilhum2'')
                     then MNum (parseFloat (field data ''soilhum2''))
                   else MNull),
                leafWetness =
                  (if truthy (field data ''leafwetness_ch1'')
                     then MNum (parseFloat (field data ''leafwetness_ch1''))
                   else if truthy (field data ''leafwetness1'')
                     then MNum (parseFloat (field data ''leafwetness1''))
                   else if truthy (field data ''leafwet_ch1'')
                     then MNum (parseFloat (field data ''leafwet_ch1''))
                   else MNull),
                stationtype = js_or (field data ''stationtype'') (JStr ''Unknown''),
                passkey = js_or (field data ''PASSKEY'')
                            (js_or (field data ''passkey'')
                               (js_or (field data ''ID'') (JStr ''Unknown''))),
                dateutc = field data ''dateutc'' \<rparr>)"

text \<open>
  \<open>parseEcowittCloudData\<close> (nested payloads, last revision). The guard
  \<open>data.c && data.c.k && data.c.k.value\<close> of each block:
\<close>

definition channel_value :: "json \<Rightarrow> string \<Rightarrow> string \<Rightarrow> json option" where
  "channel_value data c k =
     (if truthy (field data c) \<and> truthy (field (field data c) k)
         \<and> truthy (field (field (field data c) k) ''value'')
      then Some (field (field (field data c) k) ''value'') else None)"

definition parseEcowittCloudData :: "int \<Rightarrow> json \<Rightarrow> error + reading" where
  "parseEcowittCloudData now data =
     (case get data ''indoor'' of
        Inl e \<Rightarrow> Inl e
      | Inr indoor \<Rightarrow>
          (let parsed = \<lparr> timestamp = now, raw = data, temperature = None, humidity = None,
                          soilMoisture1 = MUndefined, soilMoisture2 = MUndefined,
                          leafWetness = MUndefined, stationtype = JUndefined,
                          passkey = JUndefined, dateutc = JUndefined \<rparr>;
               parsed = (case channel_value data ''indoor'' ''temperature'' of
                           Some v \<Rightarrow> parsed\<lparr>temperature := Some (toFixed1 (parseFloat v))\<rparr>
                         | None \<Rightarrow> parsed);
               parsed = (case channel_value data ''indoor'' ''humidity'' of
                           Some v \<Rightarrow> parsed\<lparr>humidity := Some (parseFloat v)\<rparr>
                         | None \<Rightarrow> parsed);
               parsed = (case channel_value data ''outdoor'' ''temperature'' of
                           Some v \<Rightarrow> parsed\<lparr>temperature := Some (toFixed1 (parseFloat v))\<rparr>
                         | None \<Rightarrow> parsed);
               parsed = (case channel_value data ''outdoor'' ''humidity'' of
                           Some v \<Rightarrow> parsed\<lparr>humidity := Some (parseFloat v)\<rparr>
                         | None \<Rightarrow> parsed);
               parsed = (case channel_value data ''soil_ch1'' ''soilmoisture'' of
                           Some v \<Rightarrow> parsed\<lparr>soilMoisture1 := MNum (toFixed1 (parseFloat v))\<rparr>
                         | None \<Rightarrow> parsed);
               parsed = (case channel_value data ''soil_ch2'' ''soilmoisture'' of
                           Some v \<Rightarrow> parsed\<lparr>soilMoisture2 := MNum (toFixed1 (parseFloat v))\<rparr>
                         | None \<Rightarrow> parsed);
               parsed = (case channel_value data ''leaf_ch1'' ''leaf_wetness'' of
                           Some v \<Rightarrow> parsed\<lparr>leafWetness := MNum (toFixed1 (parseFloat v))\<rparr>
                         | None \<Rightarrow> parsed)
           in Inr parsed))"

text \<open>
  The earlier declaration of \<open>parseEcowittCloudData\<close> (revision v11), which the last
  revision replaces. It reads the outdoor block first and falls back to the indoor one
  when \<open>!parsed.temperature\<close>, reads the soil and leaf channels from arrays, and rounds
  nothing. \<open>sensor.humidity\<close> inside \<open>forEach\<close> throws when the array element is
  \<open>null\<close>.
\<close>

definition not_set :: "jsnum option \<Rightarrow> bool" where
  "not_set v = (case v of None \<Rightarrow> True | Some n \<Rightarrow> n = NaN \<or> n = Fin 0)"

definition sensor_humidity :: "json \<Rightarrow> error + json option" where
  "sensor_humidity sensor =
     (case get sensor ''humidity'' of
        Inl e \<Rightarrow> Inl e
      | Inr h \<Rightarrow> Inr (if truthy h then Some (field h ''value'') else None))"

fun soil_forEach :: "json list \<Rightarrow> reading \<Rightarrow> error + reading" where
  "soil_forEach [] parsed = Inr parsed"
| "soil_forEach [s0] parsed =
     (case sensor_humidity s0 of
        Inl e \<Rightarrow> Inl e
      | Inr None \<Rightarrow> Inr parsed
      | Inr (Some v) \<Rightarrow> Inr (parsed\<lparr>soilMoisture1 := MNum (parseFloat v)\<rparr>))"
| "soil_forEach (s0 # s1 # rest) parsed =
     (case soil_forEach [s0] parsed of
        Inl e \<Rightarrow> Inl e
      | Inr parsed' \<Rightarrow>
          (case sensor_humidity s1 of
             Inl e \<Rightarrow> Inl e
           | Inr None \<Rightarrow> Inr parsed'
           | Inr (Some v) \<Rightarrow> Inr (parsed'\<lparr>soilMoisture2 := MNum (parseFloat v)\<rparr>)))"

definition leaf_first :: "json \<Rightarrow> reading \<Rightarrow> reading" where
  "leaf_first leaf_ch parsed =
     (case leaf_ch of
        JArr (l0 # rest) \<Rightarrow>
          if truthy l0 \<and> truthy (field l0 ''humidity'')
          then parsed\<lparr>leafWetness := MNum (parseFloat (field (field l0 ''humidity'') ''value''))\<rparr>
          else parsed
      | _ \<Rightarrow> parsed)"

definition parseEcowittCloudData_v11 :: "int \<Rightarrow> json \<Rightarrow> error + reading" where
  "parseEcowittCloudData_v11 now data =
     (case get data ''outdoor'' of
        Inl e \<Rightarrow> Inl e
      | Inr outdoor \<Rightarrow>
          (let indoor = field data ''indoor'';
               parsed = \<lparr> timestamp = now, raw = data, temperature = None, humidity = None,
                          soilMoisture1 = MUndefined, soilMoisture2 = MUndefined,
                          leafWetness = MUndefined, stationtype = JUndefined,
                          passkey = JUndefined, dateutc = JUndefined \<rparr>;
               parsed = (if truthy outdoor \<and> truthy (field outdoor ''temperature'')
                         then parsed\<lparr>temperature :=
                                Some (parseFloat (field (field outdoor ''temperature'') ''value''))\<rparr>
                         else parsed);
               parsed = (if truthy outdoor \<and> truthy (field outdoor ''humidity'')
                         then parsed\<lparr>humidity :=
                                Some (parseFloat (field (field outdoor ''humidity'') ''value''))\<rparr>
                         else parsed);
               parsed = (if truthy indoor \<and> not_set (temperature parsed)
                            \<and> truthy (field indoor ''temperature'')
                         then parsed\<lparr>temperature :=
                                Some (parseFloat (field (field indoor ''temperature'') ''value''))\<rparr>
                         else parsed);
               parsed = (if truthy indoor \<and> not_set (humidity parsed)
                            \<and> truthy (field indoor ''humidity'')
                         then parsed\<lparr>humidity :=
                                Some (parseFloat (field (field indoor ''humidity'') ''value''))\<rparr>
                         else parsed)
           in case (case field data ''soil_ch'' of
                      JArr sensors \<Rightarrow> soil_forEach sensors parsed
                    | _ \<Rightarrow> Inr parsed) of
                Inl e \<Rightarrow> Inl e
              | Inr parsed' \<Rightarrow> Inr (leaf_first (field data ''leaf_ch'') parsed')))"

subsection \<open>The store and the ingestion paths\<close>

definition MAX_READINGS :: nat where
  "MAX_READINGS = 10000"

text \<open>\<open>lastRawData\<close>: the time, the source tag when there is one, and the payload.\<close>

record rawdata =
  rd_timestamp :: int
  rd_source :: "string option"
  rd_data :: json

record state =
  sensorData :: "reading list"
  lastRawData :: "rawdata option"

text \<open>The test that guards every \<open>sensorData.push\<close>.\<close>

definition has_sensor_data :: "reading \<Rightarrow> bool" where
  "has_sensor_data parsed =
     (temperature parsed \<noteq> None \<or> soilMoisture1 parsed \<noteq> MNull
      \<or> soilMoisture2 parsed \<noteq> MNull \<or> leafWetness parsed \<noteq> MNull)"

text \<open>\<open>sensorData.push(parsed)\<close>, then one \<open>shift()\<close> when the length is over the limit.\<close>

definition store_reading :: "reading \<Rightarrow> reading list \<Rightarrow> reading list" where
  "store_reading parsed sd =
     (let sd' = sd @ [parsed]
      in if length sd' > MAX_READINGS then tl sd' else sd')"

datatype response = Send nat string

text \<open>
  \<open>POST /api/ecowitt\<close>. The assignment to \<open>lastRawData\<close> precedes the parse, so it
  stays when the parse throws and the \<open>catch\<close> block answers 500. One clock reading
  serves the whole request.
\<close>

definition post_api_ecowitt :: "int \<Rightarrow> json \<Rightarrow> state \<Rightarrow> response \<times> state" where
  "post_api_ecowitt now body s =
     (let s1 = s\<lparr>lastRawData := Some \<lparr>rd_timestamp = now, rd_source = None, rd_data = body\<rparr>\<rparr>
      in case parseEcowittData now body of
           Inl e \<Rightarrow> (Send 500 ''error'', s1)
         | Inr parsed \<Rightarrow>
             (Send 200 ''success'',
              if has_sensor_data parsed
              then s1\<lparr>sensorData := store_reading parsed (sensorData s1)\<rparr>
              else s1))"

text \<open>
  \<open>fetchEcowittData\<close> from the point where the response envelope \<open>data\<close> has arrived.
  Everything is inside \<open>try\<close>; an exception is logged and leaves the state as it is.
\<close>

definition fetchEcowittData :: "int \<Rightarrow> json \<Rightarrow> state \<Rightarrow> state" where
  "fetchEcowittData now data s =
     (case get data ''code'' of
        Inl e \<Rightarrow> s
      | Inr code \<Rightarrow>
          if code = JNum (Fin 0) \<and> truthy (field data ''data'')
          then (let s1 = s\<lparr>lastRawData :=
                              Some \<lparr>rd_timestamp = now, rd_source = Some ''ecowitt-cloud'',
                                    rd_data = field data ''data''\<rparr>\<rparr>
                in case parseEcowittCloudData now (field data ''data'') of
                     Inl e \<Rightarrow> s1
                   | Inr parsed \<Rightarrow>
                       if has_sensor_data parsed
                       then s1\<lparr>sensorData := store_reading parsed (sensorData s1)\<rparr>
                       else s1)
          else s)"

subsection \<open>The read routes\<close>

text \<open>
  Each route is a function from the state to the response and the state afterwards, so
  that what a route leaves behind is part of the model. A query parameter is a string or
  absent (\<open>None\<close>).
\<close>

datatype latest_response = LatestNoData string | LatestReading reading

definition get_api_data_latest :: "state \<Rightarrow> latest_response \<times> state" where
  "get_api_data_latest s =
     (if length (sensorData s) = 0
      then (LatestNoData ''No data available yet. Waiting for Ecowitt cloud sync.'', s)
      else (LatestReading (last (sensorData s)), s))"

text \<open>
  \<open>new Date(t)\<close> keeps an instant only when it is finite and within the range of
  \<open>Date\<close>, cut to whole milliseconds; otherwise the date is invalid (NaN).
\<close>

fun time_clip :: "jsnum \<Rightarrow> jsnum" where
  "time_clip (Fin q) =
     (if \<bar>q\<bar> > 8640000000000000 then NaN
      else Fin (of_int (if q < 0 then \<lceil>q\<rceil> else \<lfloor>q\<rfloor>)))"
| "time_clip v = NaN"

text \<open>\<open>new Date(Date.now() - hours * 60 * 60 * 1000)\<close>\<close>

definition cutoffTime :: "int \<Rightarrow> jsnum \<Rightarrow> jsnum" where
  "cutoffTime now hours =
     time_clip (num_sub (Fin (of_int now))
                        (num_mul (num_mul (num_mul hours (Fin 60)) (Fin 60)) (Fin 1000)))"

text \<open>\<open>new Date(r.timestamp) >= cutoffTime\<close>\<close>

definition not_before :: "jsnum \<Rightarrow> reading \<Rightarrow> bool" where
  "not_before cutoff r = num_ge (Fin (of_int (timestamp r))) cutoff"

text \<open>
  \<open>xs.slice(start)\<close>: \<open>start\<close> becomes an integer (NaN becomes \<open>0\<close>), a negative one
  counts from the end, and the result is what lies from there on.
\<close>

fun array_slice :: "jsnum \<Rightarrow> 'a list \<Rightarrow> 'a list" where
  "array_slice NaN xs = xs"
| "array_slice NInf xs = xs"
| "array_slice PInf xs = []"
| "array_slice (Fin q) xs =
     (let rel = (if q < 0 then \<lceil>q\<rceil> else \<lfloor>q\<rfloor>)
      in if rel < 0 then drop (nat (max (int (length xs) + rel) 0)) xs
         else drop (nat (min rel (int (length xs)))) xs)"

record history_response =
  hr_count :: nat
  hr_readings :: "reading list"

text \<open>The block \<open>if (hours) { ... }\<close> of the history route.\<close>

definition filter_by_hours :: "int \<Rightarrow> string option \<Rightarrow> reading list \<Rightarrow> reading list" where
  "filter_by_hours now hours filtered =
     (case hours of
        None \<Rightarrow> filtered
      | Some h \<Rightarrow>
          if h \<noteq> []
          then filter (not_before (cutoffTime now (string_to_number h))) filtered
          else filtered)"

text \<open>\<open>parseInt(limit)\<close>, where \<open>limit\<close> defaults to the number \<open>100\<close>.\<close>

definition limitNum :: "string option \<Rightarrow> jsnum" where
  "limitNum limit = (case limit of None \<Rightarrow> Fin 100 | Some l \<Rightarrow> parse_int_str l)"

text \<open>\<open>GET /api/data/history\<close>\<close>

definition get_api_data_history ::
  "int \<Rightarrow> string option \<Rightarrow> string option \<Rightarrow> state \<Rightarrow> history_response \<times> state" where
  "get_api_data_history now limit hours s =
     (let filtered = sensorData s;
          filtered = filter_by_hours now hours filtered;
          filtered = array_slice (num_neg (limitNum limit)) filtered
      in (\<lparr> hr_count = length filtered, hr_readings = filtered \<rparr>, s))"

record stats_summary =
  ss_temperature :: "stats option"
  ss_soilMoisture1 :: "stats option"
  ss_soilMoisture2 :: "stats option"
  ss_leafWetness :: "stats option"
  ss_count :: nat
  ss_start :: int
  ss_end :: int

datatype stats_response = StatsNoData string | StatsData stats_summary

text \<open>\<open>GET /api/data/stats\<close>; \<open>hours\<close> defaults to the number \<open>24\<close>.\<close>

definition get_api_data_stats :: "int \<Rightarrow> string option \<Rightarrow> state \<Rightarrow> stats_response \<times> state" where
  "get_api_data_stats now hours s =
     (let h = (case hours of None \<Rightarrow> Fin 24 | Some t \<Rightarrow> string_to_number t);
          filtered = filter (not_before (cutoffTime now h)) (sensorData s)
      in if length filtered = 0
         then (StatsNoData ''No data available for this period'', s)
         else (StatsData
                 \<lparr> ss_temperature =
                     calculateStats (map MNum (List.map_filter temperature filtered)),
                   ss_soilMoisture1 =
                     calculateStats (filter (\<lambda>v. v \<noteq> MNull) (map soilMoisture1 filtered)),
                   ss_soilMoisture2 =
                     calculateStats (filter (\<lambda>v. v \<noteq> MNull) (map soilMoisture2 filtered)),
                   ss_leafWetness =
                     calculateStats (filter (\<lambda>v. v \<noteq> MNull) (map leafWetness filtered)),
                   ss_count = length filtered,
                   ss_start = timestamp (filtered ! 0),
                   ss_end = timestamp (filtered ! (length filtered - 1)) \<rparr>, s))"

subsection \<open>Alerts\<close>

text \<open>
  An alert. The message is kept in three parts: the text before the number, the number
  (which the source prints with \<open>toFixed(1)\<close>) and the text after it.
\<close>

datatype message = Message string jsnum string

record alert =
  metric :: string
  alert_value :: jsnum
  severity :: string
  message :: message

record band =
  band_min :: jsnum
  band_max :: jsnum
  critical_min :: jsnum
  critical_max :: jsnum

definition ranges_temperature :: band where
  "ranges_temperature =
     \<lparr> band_min = Fin 18, band_max = Fin 25, critical_min = Fin 10, critical_max = Fin 35 \<rparr>"

definition ranges_soilMoisture :: band where
  "ranges_soilMoisture =
     \<lparr> band_min = Fin 30, band_max = Fin 60, critical_min = Fin 20, critical_max = Fin 80 \<rparr>"

definition ranges_leafWetness_max :: jsnum where
  "ranges_leafWetness_max = Fin 70"

definition ranges_leafWetness_critical_max :: jsnum where
  "ranges_leafWetness_critical_max = Fin 85"

definition degrees_celsius :: string where
  "degrees_celsius = [char_of (176 :: nat), CHR ''C'']"

definition check_temperature :: "reading \<Rightarrow> alert list" where
  "check_temperature latest =
     (case temperature latest of
        None \<Rightarrow> []
      | Some temp \<Rightarrow>
          if num_lt temp (critical_min ranges_temperature)
             \<or> num_gt temp (critical_max ranges_temperature)
          then [\<lparr> metric = ''temperature'', alert_value = temp, severity = ''critical'',
                   message = Message
                     (''Temperature critically ''
                      @ (if num_lt temp (critical_min ranges_temperature) then ''low'' else ''high'')
                      @ '' at '') temp degrees_celsius \<rparr>]
          else if num_lt temp (band_min ranges_temperature)
                  \<or> num_gt temp (band_max ranges_temperature)
          then [\<lparr> metric = ''temperature'', alert_value = temp, severity = ''warning'',
                   message = Message ''Temperature outside ideal range at '' temp degrees_celsius \<rparr>]
          else [])"

text \<open>The body of \<open>[1, 2].forEach\<close> for sensor \<open>num\<close>, whose field holds \<open>moisture\<close>.\<close>

definition check_soilMoisture :: "string \<Rightarrow> mval \<Rightarrow> alert list" where
  "check_soilMoisture num moisture =
     (case moisture of
        MNum m \<Rightarrow>
          if num_lt m (critical_min ranges_soilMoisture)
             \<or> num_gt m (critical_max ranges_soilMoisture)
          then [\<lparr> metric = ''soilMoisture'' @ num, alert_value = m, severity = ''critical'',
                   message = Message
                     (''Soil sensor '' @ num @ '' critically ''
                      @ (if num_lt m (critical_min ranges_soilMoisture) then ''dry'' else ''wet'')
                      @ '' at '') m ''%'' \<rparr>]
          else if num_lt m (band_min ranges_soilMoisture)
                  \<or> num_gt m (band_max ranges_soilMoisture)
          then [\<lparr> metric = ''soilMoisture'' @ num, alert_value = m, severity = ''warning'',
                   message = Message (''Soil sensor '' @ num @ '' outside ideal range at '') m ''%'' \<rparr>]
          else []
      | _ \<Rightarrow> [])"

definition check_leafWetness :: "reading \<Rightarrow> alert list" where
  "check_leafWetness latest =
     (case leafWetness latest of
        MNum w \<Rightarrow>
          if num_gt w ranges_leafWetness_critical_max
          then [\<lparr> metric = ''leafWetness'', alert_value = w, severity = ''critical'',
                   message = Message ''High leaf wetness ('' w ''%) - disease risk!'' \<rparr>]
          else if num_gt w ranges_leafWetness_max
          then [\<lparr> metric = ''leafWetness'', alert_value = w, severity = ''warning'',
                   message = Message ''Elevated leaf wetness at '' w ''%'' \<rparr>]
          else []
      | _ \<Rightarrow> [])"

text \<open>The array \<open>alerts\<close> after the four checks, in the order of the pushes.\<close>

definition pushed_alerts :: "reading \<Rightarrow> alert list" where
  "pushed_alerts latest =
     check_temperature latest
     @ check_soilMoisture ''1'' (soilMoisture1 latest)
     @ check_soilMoisture ''2'' (soilMoisture2 latest)
     @ check_leafWetness latest"

text \<open>The comparator handed to \<open>alerts.sort\<close>.\<close>

definition severity_compare :: "alert comparefn" where
  "severity_compare a b =
     (if severity a = ''critical'' then Fin (- 1)
      else if severity b = ''critical'' then Fin 1
      else Fin 0)"

datatype alerts_response =
    AlertsNoData nat "alert list" string
  | AlertsData nat "alert list" int

definition get_api_alerts :: "state \<Rightarrow> alerts_response \<times> state" where
  "get_api_alerts s =
     (if length (sensorData s) = 0
      then (AlertsNoData 0 [] ''No data available yet'', s)
      else (let latest = last (sensorData s);
                alerts = pushed_alerts latest
            in (AlertsData (length alerts) (array_sort severity_compare alerts)
                           (timestamp latest), s)))"

fun response_alerts :: "alerts_response \<Rightarrow> alert list" where
  "response_alerts (AlertsNoData n as m) = as"
| "response_alerts (AlertsData n as t) = as"

subsection \<open>Sequences of read requests\<close>

datatype read_call = GetLatest | GetStats "string option" | GetAlerts

datatype read_response =
    RLatest latest_response
  | RStats stats_response
  | RAlerts alerts_response

fun run_read :: "int \<Rightarrow> read_call \<Rightarrow> state \<Rightarrow> read_response \<times> state" where
  "run_read now GetLatest s = (case get_api_data_latest s of (r, s') \<Rightarrow> (RLatest r, s'))"
| "run_read now (GetStats hours) s =
     (case get_api_data_stats now hours s of (r, s') \<Rightarrow> (RStats r, s'))"
| "run_read now GetAlerts s = (case get_api_alerts s of (r, s') \<Rightarrow> (RAlerts r, s'))"

text \<open>Requests served one after the other, each on the state the one before left.\<close>

fun run_reads :: "int \<Rightarrow> read_call list \<Rightarrow> state \<Rightarrow> read_response list \<times> state" where
  "run_reads now [] s = ([], s)"
| "run_reads now (c # cs) s =
     (case run_read now c s of
        (r, s') \<Rightarrow> (case run_reads now cs s' of (rs, s'') \<Rightarrow> (r # rs, s'')))"

subsection \<open>The policies in the words of the specification\<close>

text \<open>
  A field is present when the payload supplies it: it is neither \<open>undefined\<close> nor
  \<open>null\<close>. The number \<open>0\<close> and the empty text are present.
\<close>

definition supplied :: "json \<Rightarrow> bool" where
  "supplied v = (v \<noteq> JUndefined \<and> v \<noteq> JNull)"

text \<open>
  Field resolution: an ordered list of rules, each a field name with a conversion. The
  first rule whose field is present decides.
\<close>

fun first_present :: "(string \<times> (jsnum \<Rightarrow> jsnum)) list \<Rightarrow> json \<Rightarrow> jsnum option" where
  "first_present [] data = None"
| "first_present ((k, conv) # rules) data =
     (if supplied (field data k) then Some (conv (parseFloat (field data k)))
      else first_present rules data)"

text \<open>\<open>tempf\<close>, \<open>temp1f\<close>, \<open>tempinf\<close> with \<open>(v - 32) * 5 / 9\<close>, then \<open>temp\<close> as it is.\<close>

definition temperature_rules :: "(string \<times> (jsnum \<Rightarrow> jsnum)) list" where
  "temperature_rules =
     [(''tempf'', \<lambda>v. num_div (num_mul (num_sub v (Fin 32)) (Fin 5)) (Fin 9)),
      (''temp1f'', \<lambda>v. num_div (num_mul (num_sub v (Fin 32)) (Fin 5)) (Fin 9)),
      (''tempinf'', \<lambda>v. num_div (num_mul (num_sub v (Fin 32)) (Fin 5)) (Fin 9)),
      (''temp'', \<lambda>v. v)]"

text \<open>
  The nested shape: \<open>outdoor.temperature.value\<close> when present, otherwise
  \<open>indoor.temperature.value\<close>, parsed and rounded to one decimal place, with no
  conversion.
\<close>

definition nested_value :: "json \<Rightarrow> string \<Rightarrow> string \<Rightarrow> json" where
  "nested_value data c k = field (field (field data c) k) ''value''"

definition spec_nested_temperature :: "json \<Rightarrow> jsnum option" where
  "spec_nested_temperature data =
     (if supplied (nested_value data ''outdoor'' ''temperature'')
      then Some (toFixed1 (parseFloat (nested_value data ''outdoor'' ''temperature'')))
      else if supplied (nested_value data ''indoor'' ''temperature'')
      then Some (toFixed1 (parseFloat (nested_value data ''indoor'' ''temperature'')))
      else None)"

text \<open>
  The two-tier alert policy: critical outside the critical band, else warning outside the
  ideal band, else nothing. A value is outside a band when it is below its lower or above
  its upper end.
\<close>

definition outside_band :: "jsnum \<Rightarrow> jsnum \<Rightarrow> jsnum \<Rightarrow> bool" where
  "outside_band lo hi v = (num_lt v lo \<or> num_gt v hi)"

definition two_tier :: "bool \<Rightarrow> bool \<Rightarrow> string list" where
  "two_tier outside_critical outside_ideal =
     (if outside_critical then [''critical'']
      else if outside_ideal then [''warning'']
      else [])"

text \<open>The payload fields from which the four monitored metrics are read.\<close>

definition monitored_fields :: "string list" where
  "monitored_fields =
     [''tempf'', ''temp1f'', ''tempinf'', ''temp'',
      ''soilmoisture1'', ''soilhum1'', ''soilmoisture2'', ''soilhum2'',
      ''leafwetness_ch1'', ''leafwetness1'', ''leafwet_ch1'']"

section \<open>Properties\<close>

subsection \<open>The sort\<close>

lemma insertion_point_bounds:
  "left \<le> right \<Longrightarrow>
   left \<le> insertion_point cmp pivot xs left right \<and> insertion_point cmp pivot xs left right \<le> right"
proof (induction cmp pivot xs left right rule: insertion_point.induct)
  case (1 cmp pivot xs left right)
  show ?case
  proof (cases "left < right")
    case False
    with "1.prems" show ?thesis by (simp add: insertion_point.simps)
  next
    case lt: True
    define mid where "mid = left + (right - left) div 2"
    have mid: "left \<le> mid" "mid < right" using lt by (auto simp: mid_def)
    show ?thesis
    proof (cases "order_negative (cmp pivot (xs ! mid))")
      case True
      with "1.IH"(1)[OF lt mid_def True] mid lt show ?thesis
        by (subst (1 2) insertion_point.simps) (simp add: mid_def Let_def)
    next
      case False
      with "1.IH"(2)[OF lt mid_def False] mid lt show ?thesis
        by (subst (1 2) insertion_point.simps) (simp add: mid_def Let_def)
    qed
  qed
qed

lemma mset_binary_insertion_sort:
  "mset (binary_insertion_sort cmp work rest) = mset work + mset rest"
proof (induction rest arbitrary: work)
  case Nil
  show ?case by simp
next
  case (Cons p rest)
  have "mset (take k work @ p # drop k work) = add_mset p (mset work)" for k
    by (metis append_take_drop_id mset.simps(2) mset_append union_mset_add_mset_right)
  with Cons show ?case by (simp add: Let_def)
qed

lemma run_extend_append:
  "run_extend cmp desc prev cs = (r, rest) \<Longrightarrow> r @ rest = cs"
  by (induction cs arbitrary: prev r rest) (auto split: if_splits prod.splits)

lemma mset_count_and_make_run:
  "count_and_make_run cmp xs = (run, rest) \<Longrightarrow> mset run + mset rest = mset xs"
proof (induction cmp xs rule: count_and_make_run.induct)
  case (3 cmp x0 x1 xs)
  obtain r rest' where re: "run_extend cmp (order_negative (cmp x1 x0)) x1 xs = (r, rest')"
    by (cases "run_extend cmp (order_negative (cmp x1 x0)) x1 xs")
  from run_extend_append[OF re] have "mset r + mset rest' = mset xs"
    by (metis mset_append)
  with 3 re show ?case by (auto simp: Let_def split: if_splits)
qed auto

text \<open>Whatever the comparator, the sort only rearranges.\<close>

lemma mset_array_sort: "mset (array_sort cmp xs) = mset xs"
  by (auto simp: array_sort_def mset_binary_insertion_sort split: prod.splits
           dest: mset_count_and_make_run)

text \<open>
  When the comparator is negative exactly on pairs whose keys are in strict order, the
  binary search finds the place after all elements with a key up to the pivot's.
\<close>

lemma insertion_point_spec:
  fixes key :: "'a \<Rightarrow> 'k::linorder"
  shows "(\<forall>a b. order_negative (cmp a b) = (key a < key b)) \<Longrightarrow>
     sorted (map key xs) \<Longrightarrow> left \<le> right \<Longrightarrow> right \<le> length xs \<Longrightarrow>
     (\<forall>i<left. key (xs ! i) \<le> key pivot) \<Longrightarrow>
     (\<forall>i. right \<le> i \<and> i < length xs \<longrightarrow> key pivot < key (xs ! i)) \<Longrightarrow>
     (\<forall>i<insertion_point cmp pivot xs left right. key (xs ! i) \<le> key pivot) \<and>
     (\<forall>i. insertion_point cmp pivot xs left right \<le> i \<and> i < length xs \<longrightarrow> key pivot < key (xs ! i))"
proof (induction cmp pivot xs left right rule: insertion_point.induct)
  case (1 cmp pivot xs left right)
  show ?case
  proof (cases "left < right")
    case False
    with "1.prems" show ?thesis by (simp add: insertion_point.simps)
  next
    case lt: True
    define mid where "mid = left + (right - left) div 2"
    have mid: "left \<le> mid" "mid < right" using lt by (auto simp: mid_def)
    have ok: "\<And>a b. order_negative (cmp a b) = (key a < key b)"
      using "1.prems"(1) by simp
    have srt: "\<And>i j. i \<le> j \<Longrightarrow> j < length xs \<Longrightarrow> key (xs ! i) \<le> key (xs ! j)"
      using "1.prems"(2) by (simp add: sorted_iff_nth_mono)
    show ?thesis
    proof (cases "order_negative (cmp pivot (xs ! mid))")
      case True
      then have pm: "key pivot < key (xs ! mid)" using "1.prems" ok by simp
      have hi: "\<forall>i. mid \<le> i \<and> i < length xs \<longrightarrow> key pivot < key (xs ! i)"
        using pm srt by (meson less_le_trans)
      have eq: "insertion_point cmp pivot xs left right = insertion_point cmp pivot xs left mid"
        using lt True by (subst insertion_point.simps) (simp add: mid_def Let_def)
      show ?thesis unfolding eq
        using "1.IH"(1)[OF lt mid_def True] "1.prems" mid hi ok by simp
    next
      case False
      then have pm: "key (xs ! mid) \<le> key pivot" using "1.prems" ok by (simp add: not_less)
      have lo: "\<forall>i<mid + 1. key (xs ! i) \<le> key pivot"
      proof (intro allI impI)
        fix i assume "i < mid + 1"
        then have "i \<le> mid" by simp
        moreover have "mid < length xs" using mid "1.prems" by simp
        ultimately have "key (xs ! i) \<le> key (xs ! mid)" using srt by blast
        with pm show "key (xs ! i) \<le> key pivot" by simp
      qed
      have eq: "insertion_point cmp pivot xs left right = insertion_point cmp pivot xs (mid + 1) right"
        using lt False by (subst insertion_point.simps) (simp add: mid_def Let_def)
      show ?thesis unfolding eq
        using "1.IH"(2)[OF lt mid_def False] "1.prems" mid lo ok by simp
    qed
  qed
qed

lemma sorted_insert_at:
  fixes key :: "'a \<Rightarrow> 'k::linorder"
  assumes "sorted (map key xs)" "k \<le> length xs"
    and lo: "\<forall>i<k. key (xs ! i) \<le> key p"
    and hi: "\<forall>i. k \<le> i \<and> i < length xs \<longrightarrow> key p < key (xs ! i)"
  shows "sorted (map key (take k xs @ p # drop k xs))"
proof -
  have 1: "sorted (map key (take k xs))" and 2: "sorted (map key (drop k xs))"
    using assms(1) by (simp_all add: take_map[symmetric] drop_map[symmetric] sorted_wrt_take sorted_wrt_drop)
  have 3: "\<forall>x\<in>set (take k xs). key x \<le> key p"
    using lo assms(2) by (auto simp: in_set_conv_nth)
  have 4: "\<forall>y\<in>set (drop k xs). key p < key y"
    using hi assms(2) by (auto simp: in_set_conv_nth)
  from 3 4 have 5: "\<forall>x\<in>set (take k xs). \<forall>y\<in>set (drop k xs). key x \<le> key y"
    by (meson le_less_trans less_imp_le)
  show ?thesis using 1 2 3 4 5 by (auto simp: sorted_append less_imp_le)
qed

lemma sorted_binary_insertion_sort:
  fixes key :: "'a \<Rightarrow> 'k::linorder"
  assumes ok: "\<And>a b. order_negative (cmp a b) = (key a < key b)"
  shows "sorted (map key work) \<Longrightarrow> sorted (map key (binary_insertion_sort cmp work rest))"
proof (induction rest arbitrary: work)
  case Nil
  then show ?case by simp
next
  case (Cons p rest)
  define k where "k = insertion_point cmp p work 0 (length work)"
  have kb: "k \<le> length work"
    using insertion_point_bounds[of 0 "length work" cmp p work] by (simp add: k_def)
  have sp: "(\<forall>i<k. key (work ! i) \<le> key p)
            \<and> (\<forall>i. k \<le> i \<and> i < length work \<longrightarrow> key p < key (work ! i))"
  proof -
    have v: "\<forall>i. length work \<le> i \<and> i < length work \<longrightarrow> key p < key (work ! i)" by auto
    have o: "\<forall>a b. order_negative (cmp a b) = (key a < key b)" using ok by simp
    show ?thesis
      unfolding k_def by (rule insertion_point_spec[OF o Cons.prems _ _ _ v]) simp_all
  qed
  have "sorted (map key (take k work @ p # drop k work))"
    using sorted_insert_at[OF Cons.prems kb] sp by blast
  from Cons.IH[OF this] show ?case by (simp add: Let_def k_def)
qed

lemma run_extend_ascending:
  fixes key :: "'a \<Rightarrow> 'k::linorder"
  assumes ok: "\<And>a b. order_negative (cmp a b) = (key a < key b)"
  shows "run_extend cmp False prev cs = (r, rest) \<Longrightarrow> sorted (map key (prev # r))"
proof (induction cs arbitrary: prev r rest)
  case Nil
  then show ?case by simp
next
  case (Cons c cs)
  show ?case
  proof (cases "order_negative (cmp c prev)")
    case True
    with Cons.prems show ?thesis by simp
  next
    case False
    then obtain r' where r': "run_extend cmp False c cs = (r', rest)" "r = c # r'"
      using Cons.prems by (auto split: prod.splits)
    from False ok have "key prev \<le> key c" by (simp add: not_less)
    moreover have "sorted (map key (c # r'))" using Cons.IH[OF r'(1)] .
    ultimately show ?thesis using r'(2) by auto
  qed
qed

lemma run_extend_descending:
  fixes key :: "'a \<Rightarrow> 'k::linorder"
  assumes ok: "\<And>a b. order_negative (cmp a b) = (key a < key b)"
  shows "run_extend cmp True prev cs = (r, rest) \<Longrightarrow> sorted (map key (rev (prev # r)))"
proof (induction cs arbitrary: prev r rest)
  case Nil
  then show ?case by simp
next
  case (Cons c cs)
  show ?case
  proof (cases "order_negative (cmp c prev)")
    case False
    with Cons.prems show ?thesis by simp
  next
    case True
    then obtain r' where r': "run_extend cmp True c cs = (r', rest)" "r = c # r'"
      using Cons.prems by (auto split: prod.splits)
    from True ok have lt: "key c < key prev" by simp
    have s: "sorted (map key (rev (c # r')))" using Cons.IH[OF r'(1)] .
    then have "\<forall>x\<in>set (c # r'). key x \<le> key c"
      by (auto simp: sorted_append rev_map)
    with lt have "\<forall>x\<in>set (c # r'). key x \<le> key prev" by (meson le_less_trans less_imp_le)
    with s show ?thesis using r'(2) by (auto simp: sorted_append)
  qed
qed

lemma sorted_count_and_make_run:
  fixes key :: "'a \<Rightarrow> 'k::linorder"
  assumes ok: "\<And>a b. order_negative (cmp a b) = (key a < key b)"
    and run: "count_and_make_run cmp xs = (run, rest)"
  shows "sorted (map key run)"
proof (cases "(cmp, xs)" rule: count_and_make_run.cases)
  case (1 c)
  with run show ?thesis by auto
next
  case (2 c x)
  with run show ?thesis by auto
next
  case (3 c x0 x1 ys)
  then have xs: "xs = x0 # x1 # ys" and c: "c = cmp" by simp_all
  obtain r rest' where re: "run_extend cmp (order_negative (cmp x1 x0)) x1 ys = (r, rest')"
    by (cases "run_extend cmp (order_negative (cmp x1 x0)) x1 ys")
  show ?thesis
  proof (cases "order_negative (cmp x1 x0)")
    case True
    with re have "run_extend cmp True x1 ys = (r, rest')" by simp
    then have s: "sorted (map key (rev (x1 # r)))"
      by (rule run_extend_descending[OF ok])
    then have "\<forall>x\<in>set (x1 # r). key x \<le> key x1"
      by (auto simp: sorted_append rev_map)
    moreover from True ok have "key x1 < key x0" by simp
    ultimately have "\<forall>x\<in>set (x1 # r). key x \<le> key x0"
      by (meson le_less_trans less_imp_le)
    with s have "sorted (map key (rev (x0 # x1 # r)))" by (auto simp: sorted_append)
    moreover have "run = rev (x0 # x1 # r)" using run xs re True by (simp add: Let_def)
    ultimately show ?thesis by simp
  next
    case False
    with re have "run_extend cmp False x1 ys = (r, rest')" by simp
    then have s: "sorted (map key (x1 # r))"
      by (rule run_extend_ascending[OF ok])
    moreover from False ok have "key x0 \<le> key x1" by (simp add: not_less)
    ultimately have "sorted (map key (x0 # x1 # r))" by auto
    moreover have "run = x0 # x1 # r" using run xs re False by (simp add: Let_def)
    ultimately show ?thesis by simp
  qed
qed

lemma sorted_array_sort:
  fixes key :: "'a \<Rightarrow> 'k::linorder"
  assumes ok: "\<And>a b. order_negative (cmp a b) = (key a < key b)"
  shows "sorted (map key (array_sort cmp xs))"
proof (cases "length xs < 2")
  case True
  then have "array_sort cmp xs = xs" by (simp add: array_sort_def)
  moreover have "sorted (map key xs)"
  proof (cases xs)
    case Nil
    then show ?thesis by simp
  next
    case (Cons x ys)
    with True have "ys = []" by simp
    with Cons show ?thesis by simp
  qed
  ultimately show ?thesis by simp
next
  case False
  obtain run rest where cr: "count_and_make_run cmp xs = (run, rest)"
    by (cases "count_and_make_run cmp xs")
  have "sorted (map key run)" using sorted_count_and_make_run[OF ok cr] .
  from sorted_binary_insertion_sort[OF ok this] show ?thesis
    using False cr by (simp add: array_sort_def)
qed

text \<open>The sort commutes with a renaming of the elements.\<close>

lemma run_extend_map:
  "run_extend cmp desc (f prev) (map f cs) =
   (case run_extend (\<lambda>a b. cmp (f a) (f b)) desc prev cs of (r, rest) \<Rightarrow> (map f r, map f rest))"
  by (induction cs arbitrary: prev) (auto split: prod.splits)

lemma count_and_make_run_map:
  "count_and_make_run cmp (map f xs) =
   (case count_and_make_run (\<lambda>a b. cmp (f a) (f b)) xs of (r, rest) \<Rightarrow> (map f r, map f rest))"
proof (cases "(\<lambda>a b. cmp (f a) (f b), xs)" rule: count_and_make_run.cases)
  case (3 c x0 x1 ys)
  then show ?thesis
    by (auto simp: run_extend_map Let_def rev_map split: prod.splits)
qed auto

lemma insertion_point_map:
  "right \<le> length xs \<Longrightarrow>
   insertion_point cmp (f pivot) (map f xs) left right =
   insertion_point (\<lambda>a b. cmp (f a) (f b)) pivot xs left right"
proof (induction "\<lambda>a b. cmp (f a) (f b)" pivot xs left right rule: insertion_point.induct)
  case (1 pivot xs left right)
  show ?case
  proof (cases "left < right")
    case False
    then show ?thesis by (simp add: insertion_point.simps)
  next
    case lt: True
    define mid where "mid = left + (right - left) div 2"
    have mid: "mid < right" "mid < length xs" using lt "1.prems" by (auto simp: mid_def)
    show ?thesis
    proof (cases "order_negative (cmp (f pivot) (f (xs ! mid)))")
      case True
      have "insertion_point cmp (f pivot) (map f xs) left mid =
            insertion_point (\<lambda>a b. cmp (f a) (f b)) pivot xs left mid"
        using "1.hyps"(1)[OF lt mid_def True] mid by simp
      then show ?thesis using lt True mid
        by (subst (1 2) insertion_point.simps) (simp add: mid_def[symmetric] Let_def)
    next
      case False
      have "insertion_point cmp (f pivot) (map f xs) (mid + 1) right =
            insertion_point (\<lambda>a b. cmp (f a) (f b)) pivot xs (mid + 1) right"
        using "1.hyps"(2)[OF lt mid_def False] "1.prems" by simp
      then show ?thesis using lt False mid
        by (subst (1 2) insertion_point.simps) (simp add: mid_def[symmetric] Let_def)
    qed
  qed
qed

lemma binary_insertion_sort_map:
  "binary_insertion_sort cmp (map f work) (map f rest) =
   map f (binary_insertion_sort (\<lambda>a b. cmp (f a) (f b)) work rest)"
proof (induction rest arbitrary: work)
  case Nil
  show ?case by simp
next
  case (Cons p rest)
  define k where "k = insertion_point (\<lambda>a b. cmp (f a) (f b)) p work 0 (length work)"
  have "take k (map f work) @ f p # drop k (map f work) = map f (take k work @ p # drop k work)"
    by (simp add: take_map drop_map)
  with Cons.IH[of "take k work @ p # drop k work"] show ?case
    by (simp add: insertion_point_map Let_def k_def)
qed

lemma array_sort_map:
  "array_sort cmp (map f xs) = map f (array_sort (\<lambda>a b. cmp (f a) (f b)) xs)"
  by (simp add: array_sort_def count_and_make_run_map binary_insertion_sort_map split: prod.splits)

text \<open>On finite numbers \<open>(a, b) => a - b\<close> sorts ascending.\<close>

lemma array_sort_numeric:
  "array_sort (\<lambda>a b. num_sub (Fin a) (Fin b)) qs = sort qs"
proof -
  have "sorted (map (\<lambda>q. q) (array_sort (\<lambda>a b. num_sub (Fin a) (Fin b)) qs))"
    by (rule sorted_array_sort) (simp add: order_negative_def num_sub_def)
  then show ?thesis
    using properties_for_sort[of "array_sort (\<lambda>a b. num_sub (Fin a) (Fin b)) qs" qs]
    by (simp add: mset_array_sort)
qed

lemma sort_values_finite:
  "sort_values (map (\<lambda>q. MNum (Fin q)) qs) = map (\<lambda>q. MNum (Fin q)) (sort qs)"
proof -
  have "array_sort (\<lambda>a b. num_sub (to_number a) (to_number b)) (map (\<lambda>q. MNum (Fin q)) qs)
        = map (\<lambda>q. MNum (Fin q)) (array_sort (\<lambda>a b. num_sub (Fin a) (Fin b)) qs)"
    by (simp add: array_sort_map)
  then show ?thesis
    by (simp add: sort_values_def array_sort_numeric filter_map o_def)
qed

subsection \<open>Statistics\<close>

lemma calculateStats_median_finite:
  "qs \<noteq> [] \<Longrightarrow>
   map_option st_median (calculateStats (map (\<lambda>q. MNum (Fin q)) qs))
     = Some (MNum (Fin (sort qs ! (length qs div 2))))"
proof -
  assume ne: "qs \<noteq> []"
  then have "length qs div 2 < length (sort qs)" by (cases qs) auto
  with ne show ?thesis
    by (simp add: calculateStats_def sort_values_finite Let_def)
qed

text \<open>
  C1 as the claim states it fails: on the values 10, 20, 30, 40 the median that
  \<open>calculateStats\<close> returns is not 20.
\<close>

theorem C1_median_lower_counterexample:
  "map_option st_median
     (calculateStats [MNum (Fin 10), MNum (Fin 20), MNum (Fin 30), MNum (Fin 40)])
   \<noteq> Some (MNum (Fin 20))"
  using calculateStats_median_finite[of "[10, 20, 30, 40]"] by auto

text \<open>
  C1, amended: for every non-empty value set of even length (finite numbers), the median
  of \<open>calculateStats\<close> is the element at index \<open>n / 2\<close> of the ascending order, which is
  the upper of the two middle elements (the lower one, at index \<open>n / 2 - 1\<close>, is at most
  as large).
\<close>

theorem C1_median_upper:
  assumes "qs \<noteq> []" and "even (length qs)"
  shows "map_option st_median (calculateStats (map (\<lambda>q. MNum (Fin q)) qs))
           = Some (MNum (Fin (sort qs ! (length qs div 2))))
         \<and> sort qs ! (length qs div 2 - 1) \<le> sort qs ! (length qs div 2)
         \<and> length qs div 2 - 1 < length qs div 2"
proof -
  from assms have pos: "0 < length qs div 2" by (cases qs) (auto elim: evenE)
  have "length qs div 2 < length (sort qs)" using assms(1) by (cases qs) auto
  then have "sort qs ! (length qs div 2 - 1) \<le> sort qs ! (length qs div 2)"
    using sorted_sort[of qs] by (simp add: sorted_iff_nth_mono)
  with pos calculateStats_median_finite[OF assms(1)] show ?thesis by simp
qed

theorem C1_median_upper_witness:
  "map_option st_median
     (calculateStats (map (\<lambda>q. MNum (Fin q)) [10, 20, 30, 40])) = Some (MNum (Fin 30))"
  using C1_median_upper[of "[10, 20, 30, 40]"] by simp

subsection \<open>The store\<close>

lemma store_reading_drop:
  "length sd \<le> MAX_READINGS \<Longrightarrow>
   store_reading r sd = drop (length (sd @ [r]) - MAX_READINGS) (sd @ [r])"
  by (cases sd) (auto simp: store_reading_def Let_def MAX_READINGS_def drop_Cons')

lemma length_store_reading:
  "length sd \<le> MAX_READINGS \<Longrightarrow> length (store_reading r sd) \<le> MAX_READINGS"
  by (auto simp: store_reading_def Let_def MAX_READINGS_def)

lemma store_reading_full:
  "length sd = MAX_READINGS \<Longrightarrow> store_reading r sd = tl sd @ [r]"
  by (cases sd) (simp_all add: store_reading_def Let_def MAX_READINGS_def)

lemma foldl_store_reading:
  "length sd \<le> MAX_READINGS \<Longrightarrow>
   foldl (\<lambda>s r. store_reading r s) sd rs
     = drop (length (sd @ rs) - MAX_READINGS) (sd @ rs)"
proof (induction rs arbitrary: sd)
  case Nil
  then show ?case by simp
next
  case (Cons r rs)
  let ?sd' = "store_reading r sd"
  have len: "length ?sd' \<le> MAX_READINGS" using Cons.prems by (rule length_store_reading)
  have "foldl (\<lambda>s r. store_reading r s) sd (r # rs) = foldl (\<lambda>s r. store_reading r s) ?sd' rs"
    by simp
  also have "\<dots> = drop (length (?sd' @ rs) - MAX_READINGS) (?sd' @ rs)"
    using Cons.IH[OF len] .
  also have "\<dots> = drop (length (sd @ r # rs) - MAX_READINGS) (sd @ r # rs)"
  proof (cases "length sd < MAX_READINGS")
    case True
    then have "?sd' = sd @ [r]" by (simp add: store_reading_def Let_def)
    then show ?thesis by simp
  next
    case False
    with Cons.prems have full: "length sd = MAX_READINGS" by simp
    then have sd': "?sd' = tl sd @ [r]" and ne: "sd \<noteq> []"
      by (auto simp: store_reading_full MAX_READINGS_def)
    have l: "length (?sd' @ rs) - MAX_READINGS = length rs"
      using sd' full ne by (cases sd) auto
    have "drop (length (?sd' @ rs) - MAX_READINGS) (?sd' @ rs) = drop (length rs) (?sd' @ rs)"
      by (simp only: l)
    also have "\<dots> = drop (length rs) (tl sd @ r # rs)"
      by (simp only: sd' append_assoc append_Cons append_Nil)
    also have "\<dots> = drop (Suc (length rs)) (sd @ r # rs)"
      using ne by (cases sd) simp_all
    also have "Suc (length rs) = length (sd @ r # rs) - MAX_READINGS"
      using full by simp
    finally show ?thesis .
  qed
  finally show ?case .
qed

text \<open>
  C5: from any store within the limit, appending keeps the size within \<open>MAX_READINGS\<close>
  at every step; after more than \<open>MAX_READINGS\<close> appends the store holds exactly the last
  \<open>MAX_READINGS\<close> of the appended readings, in the order of their arrival; and an append
  to a full store drops the oldest reading.
\<close>

theorem C5_store_bounded_fifo:
  assumes "length sd \<le> MAX_READINGS"
  shows "(\<forall>n \<le> length rs.
            length (foldl (\<lambda>s r. store_reading r s) sd (take n rs)) \<le> MAX_READINGS)
         \<and> (length rs > MAX_READINGS \<longrightarrow>
              length (foldl (\<lambda>s r. store_reading r s) sd rs) = MAX_READINGS
              \<and> foldl (\<lambda>s r. store_reading r s) sd rs = drop (length rs - MAX_READINGS) rs)
         \<and> (length sd = MAX_READINGS \<longrightarrow> store_reading r sd = tl sd @ [r])"
proof (intro conjI allI impI)
  fix n assume "n \<le> length rs"
  show "length (foldl (\<lambda>s r. store_reading r s) sd (take n rs)) \<le> MAX_READINGS"
    by (simp add: foldl_store_reading[OF assms])
next
  assume big: "length rs > MAX_READINGS"
  then show "length (foldl (\<lambda>s r. store_reading r s) sd rs) = MAX_READINGS"
    by (simp add: foldl_store_reading[OF assms])
  from big show "foldl (\<lambda>s r. store_reading r s) sd rs = drop (length rs - MAX_READINGS) rs"
    by (simp add: foldl_store_reading[OF assms])
next
  assume "length sd = MAX_READINGS"
  then show "store_reading r sd = tl sd @ [r]"
    by (rule store_reading_full)
qed

theorem C5_store_bounded_fifo_witness:
  "length (foldl (\<lambda>s r. store_reading r s) []
      (replicate 10001 \<lparr> timestamp = 0, raw = JNull, temperature = Some (Fin 20),
          humidity = None, soilMoisture1 = MNull, soilMoisture2 = MNull, leafWetness = MNull,
          stationtype = JUndefined, passkey = JUndefined, dateutc = JUndefined \<rparr>)) = 10000"
  using C5_store_bounded_fifo[of "[]" "replicate 10001 \<lparr> timestamp = 0, raw = JNull,
          temperature = Some (Fin 20), humidity = None, soilMoisture1 = MNull,
          soilMoisture2 = MNull, leafWetness = MNull, stationtype = JUndefined,
          passkey = JUndefined, dateutc = JUndefined \<rparr>"]
  by (simp add: MAX_READINGS_def)

subsection \<open>The parsers\<close>

lemmas parse_defs = parseEcowittData_def field_def js_or_def fahrenheit_to_celsius_def num_sub_def
  parse_float_str_def str_decimal_prefix_def exponent_part_def scale10_def digits_value_def
  digit_value_def is_digit_def is_space_def Let_def

text \<open>
  C2 fails on the code: a metric field that carries the number \<open>0\<close> is read as absent.
  \<open>soilmoisture1 = 0\<close> and \<open>leafwetness_ch1 = 0\<close> give \<open>null\<close>, \<open>tempf = 0\<close> leaves
  the temperature unset, and in the nested shape \<open>soil_ch1.soilmoisture.value = 0\<close> leaves
  \<open>soilMoisture1\<close> unset.
\<close>

theorem C2_numeric_zero_read_as_absent:
  "map_sum id soilMoisture1
     (parseEcowittData now (JObj [(''soilmoisture1'', JNum (Fin 0))])) = Inr MNull
   \<and> map_sum id leafWetness
       (parseEcowittData now (JObj [(''leafwetness_ch1'', JNum (Fin 0))])) = Inr MNull
   \<and> map_sum id temperature
       (parseEcowittData now (JObj [(''tempf'', JNum (Fin 0))])) = Inr None
   \<and> map_sum id soilMoisture1
       (parseEcowittCloudData now
          (JObj [(''soil_ch1'', JObj [(''soilmoisture'', JObj [(''value'', JNum (Fin 0))])])]))
       = Inr MUndefined"
  by (simp add: parse_defs parseEcowittCloudData_def channel_value_def)

text \<open>The same fields carrying the text \<open>0\<close>, as a form-encoded payload does, are present.\<close>

lemma zero_text_is_present:
  "map_sum id soilMoisture1
     (parseEcowittData now (JObj [(''soilmoisture1'', JStr ''0'')])) = Inr (MNum (Fin 0))
   \<and> map_sum id leafWetness
       (parseEcowittData now (JObj [(''leafwetness_ch1'', JStr ''0'')])) = Inr (MNum (Fin 0))
   \<and> map_sum id temperature
       (parseEcowittData now (JObj [(''tempf'', JStr ''0'')])) = Inr (Some (Fin (- 160 / 9)))"
  by (simp add: parse_defs)

lemma truthy_supplied: "truthy v \<Longrightarrow> supplied v"
  by (cases v) (simp_all add: supplied_def)

text \<open>
  On a flat payload in which every temperature field that is present passes the
  source's truthiness test, \<open>parseEcowittData\<close> resolves the temperature as the ordered
  rules \<open>tempf\<close>, \<open>temp1f\<close>, \<open>tempinf\<close> (each converted by \<open>(v - 32) * 5 / 9\<close>) and
  \<open>temp\<close> (as it is) do.
\<close>

lemma parseEcowittData_temperature_agrees:
  assumes "\<forall>k \<in> set (map fst temperature_rules).
             supplied (field (JObj kvs) k) \<longrightarrow> truthy (field (JObj kvs) k)"
  shows "\<exists>r. parseEcowittData now (JObj kvs) = Inr r
             \<and> temperature r = first_present temperature_rules (JObj kvs)"
proof -
  have eq: "supplied (field (JObj kvs) k) = truthy (field (JObj kvs) k)"
    if "k \<in> {''tempf'', ''temp1f'', ''tempinf'', ''temp''}" for k
    using assms that truthy_supplied[of "field (JObj kvs) k"]
    by (auto simp: temperature_rules_def)
  have "get (JObj kvs) ''tempf'' = Inr (field (JObj kvs) ''tempf'')"
    by (simp add: field_def)
  then show ?thesis
    by (simp add: parseEcowittData_def temperature_rules_def fahrenheit_to_celsius_def eq
             del: get.simps)
qed

text \<open>
  The two examples of the specification, on the code and on the rules: \<open>{tempf: "68"}\<close>
  gives 20 and \<open>{temp: "20"}\<close> gives 20; \<open>temp1f\<close> goes before \<open>temp\<close>.
\<close>

lemma flat_temperature_examples:
  "map_sum id temperature (parseEcowittData now (JObj [(''tempf'', JStr ''68'')]))
       = Inr (Some (Fin 20))
   \<and> first_present temperature_rules (JObj [(''tempf'', JStr ''68'')]) = Some (Fin 20)
   \<and> map_sum id temperature (parseEcowittData now (JObj [(''temp'', JStr ''20'')]))
       = Inr (Some (Fin 20))
   \<and> first_present temperature_rules (JObj [(''temp'', JStr ''20'')]) = Some (Fin 20)
   \<and> map_sum id temperature
         (parseEcowittData now (JObj [(''temp1f'', JStr ''50''), (''temp'', JStr ''99'')]))
       = Inr (Some (Fin 10))"
  by (simp add: parse_defs temperature_rules_def supplied_def)

text \<open>
  C6 fails on the code: on the flat payload \<open>{tempf: 0, temp1f: "50"}\<close> the field
  \<open>tempf\<close> is present and first in the priority order, so the temperature is
  \<open>(0 - 32) * 5 / 9 = - 160 / 9\<close>, which is what the ordered rules give. \<open>parseEcowittData\<close>
  tests \<open>tempf\<close> for truthiness, passes over the number \<open>0\<close> and returns 10, converted
  from \<open>temp1f\<close>.
\<close>

theorem C6_numeric_zero_tempf_skipped:
  "map_sum id temperature
     (parseEcowittData now (JObj [(''tempf'', JNum (Fin 0)), (''temp1f'', JStr ''50'')]))
     = Inr (Some (Fin 10))
   \<and> first_present temperature_rules
         (JObj [(''tempf'', JNum (Fin 0)), (''temp1f'', JStr ''50'')])
       = Some (Fin (- 160 / 9))"
  by (simp add: parse_defs temperature_rules_def supplied_def)

text \<open>
  An empty text in \<open>tempf\<close> is passed over in the same way: the rules read it (as NaN),
  the code goes on to \<open>temp\<close>.
\<close>

lemma empty_text_tempf_skipped:
  "map_sum id temperature
     (parseEcowittData now (JObj [(''tempf'', JStr ''''), (''temp'', JStr ''20'')]))
     = Inr (Some (Fin 20))
   \<and> first_present temperature_rules (JObj [(''tempf'', JStr ''''), (''temp'', JStr ''20'')])
       = Some NaN"
  by (simp add: parse_defs temperature_rules_def supplied_def)

subsection \<open>Rounding to one decimal place\<close>

text \<open>
  \<open>nearest_double x\<close> has a significand of 53 bits at the exponent of \<open>x\<close>, no multiple
  of the unit in the last place is nearer to \<open>x\<close>, and its relative error is at most
  \<open>2^-53\<close>.
\<close>

lemma pow2_pos: "0 < pow2 e"
  by (simp add: pow2_def)

lemma pow2_diff: "pow2 (e - 52) = pow2 e / 2 ^ 52"
proof -
  have p: "pow2 i = power_int 2 i" for i
    by (simp add: pow2_def power_int_def inverse_eq_divide power_divide)
  have "power_int (2::rat) (e - 52) = power_int 2 e / power_int 2 52"
    by (simp add: power_int_diff)
  then show ?thesis by (simp add: p)
qed

lemma bitlen_pos:
  assumes "0 < n"
  shows "0 < bitlen n"
proof (rule ccontr)
  assume "\<not> 0 < bitlen n"
  then have "nat (bitlen n) = 0" by simp
  moreover have "n < 2 ^ nat (bitlen n)" using bitlen_bounds[OF assms] by simp
  ultimately show False using assms by simp
qed

lemma floor_log2_bounds:
  assumes "0 < a"
  shows "pow2 (floor_log2 a) \<le> a \<and> a < 2 * pow2 (floor_log2 a)"
proof (cases "1 \<le> a")
  case True
  let ?n = "\<lfloor>a\<rfloor>"
  have n: "0 < ?n" using True by simp
  have b: "2 ^ nat (bitlen ?n - 1) \<le> ?n" "?n < 2 ^ nat (bitlen ?n)"
    using bitlen_bounds[OF n] by simp_all
  have pos: "0 < bitlen ?n" using n by (rule bitlen_pos)
  then have e: "floor_log2 a = bitlen ?n - 1" "0 \<le> bitlen ?n - 1"
    using True by (simp_all add: floor_log2_def)
  have p: "pow2 (floor_log2 a) = 2 ^ nat (bitlen ?n - 1)"
    using e by (simp add: pow2_def)
  have "(2::rat) ^ nat (bitlen ?n - 1) = of_int (2 ^ nat (bitlen ?n - 1))" by simp
  also have "\<dots> \<le> of_int ?n" using b(1) by (simp only: of_int_le_iff)
  also have "\<dots> \<le> a" by simp
  finally have lo: "pow2 (floor_log2 a) \<le> a" by (simp only: p)
  have "nat (bitlen ?n) = Suc (nat (bitlen ?n - 1))" using pos by simp
  then have "(2::int) ^ nat (bitlen ?n) = 2 * 2 ^ nat (bitlen ?n - 1)" by simp
  then have "?n + 1 \<le> 2 * 2 ^ nat (bitlen ?n - 1)" using b(2) by simp
  then have "of_int (?n + 1) \<le> (of_int (2 * 2 ^ nat (bitlen ?n - 1)) :: rat)"
    by (simp only: of_int_le_iff)
  moreover have "a < of_int (?n + 1)" by linarith
  ultimately have "a < 2 * 2 ^ nat (bitlen ?n - 1)" by simp
  then show ?thesis using lo p by simp
next
  case False
  let ?m = "\<lceil>1 / a\<rceil> - 1"
  have a1: "1 < 1 / a" using assms False by simp
  then have m: "0 < ?m" by linarith
  have b: "2 ^ nat (bitlen ?m - 1) \<le> ?m" "?m < 2 ^ nat (bitlen ?m)"
    using bitlen_bounds[OF m] by simp_all
  have pos: "0 < bitlen ?m" using m by (rule bitlen_pos)
  have e: "floor_log2 a = - bitlen ?m" using False by (simp add: floor_log2_def)
  have p: "pow2 (floor_log2 a) = 1 / 2 ^ nat (bitlen ?m)"
    using e pos by (simp add: pow2_def)
  have m_lt: "of_int ?m < 1 / a" by linarith
  have m_ge: "1 / a \<le> of_int (?m + 1)" by simp
  have "?m + 1 \<le> 2 ^ nat (bitlen ?m)" using b(2) by simp
  then have "of_int (?m + 1) \<le> (of_int (2 ^ nat (bitlen ?m)) :: rat)"
    by (simp only: of_int_le_iff)
  also have "(of_int (2 ^ nat (bitlen ?m)) :: rat) = 2 ^ nat (bitlen ?m)" by simp
  finally have "of_int (?m + 1) \<le> (2::rat) ^ nat (bitlen ?m)" .
  with m_ge have "1 / a \<le> 2 ^ nat (bitlen ?m)" by (rule order_trans)
  then have "1 \<le> 2 ^ nat (bitlen ?m) * a" using assms by (simp add: field_simps)
  then have lo: "1 / 2 ^ nat (bitlen ?m) \<le> a" by (simp add: field_simps)
  have "nat (bitlen ?m) = Suc (nat (bitlen ?m - 1))" using pos by simp
  then have two: "(2::rat) ^ nat (bitlen ?m) = 2 * 2 ^ nat (bitlen ?m - 1)" by simp
  have "(2::rat) ^ nat (bitlen ?m - 1) = of_int (2 ^ nat (bitlen ?m - 1))" by simp
  also have "\<dots> \<le> of_int ?m" using b(1) by (simp only: of_int_le_iff)
  finally have "(2::rat) ^ nat (bitlen ?m - 1) \<le> of_int ?m" .
  from this m_lt have "2 ^ nat (bitlen ?m - 1) < 1 / a" by (rule le_less_trans)
  then have "2 ^ nat (bitlen ?m - 1) * a < 1" using assms by (simp add: field_simps)
  then have "a < 2 * (1 / 2 ^ nat (bitlen ?m))" unfolding two by (simp add: field_simps)
  then show ?thesis using lo p by simp
qed

lemma round_half_even_cases:
  fixes m :: rat
  defines "n \<equiv> \<lfloor>m\<rfloor>"
  shows "(round_half_even m = n \<and> m - of_int n \<le> 1 / 2)
         \<or> (round_half_even m = n + 1 \<and> 1 / 2 \<le> m - of_int n)"
  by (simp add: round_half_even_def Let_def n_def not_less)

lemma round_half_even_close: "\<bar>of_int (round_half_even m) - m\<bar> \<le> 1 / 2"
proof -
  have f: "of_int \<lfloor>m\<rfloor> \<le> m" "m < of_int \<lfloor>m\<rfloor> + 1" by linarith+
  from round_half_even_cases[of m] show ?thesis
  proof
    assume "round_half_even m = \<lfloor>m\<rfloor> \<and> m - of_int \<lfloor>m\<rfloor> \<le> 1 / 2"
    then have e: "round_half_even m = \<lfloor>m\<rfloor>" and r: "m - of_int \<lfloor>m\<rfloor> \<le> 1 / 2"
      by blast+
    show ?thesis unfolding abs_le_iff e using f r by (intro conjI; linarith)
  next
    assume "round_half_even m = \<lfloor>m\<rfloor> + 1 \<and> 1 / 2 \<le> m - of_int \<lfloor>m\<rfloor>"
    then have e: "round_half_even m = \<lfloor>m\<rfloor> + 1" and r: "1 / 2 \<le> m - of_int \<lfloor>m\<rfloor>"
      by blast+
    have o: "(of_int (\<lfloor>m\<rfloor> + 1) :: rat) = of_int \<lfloor>m\<rfloor> + 1" by simp
    show ?thesis unfolding abs_le_iff e o using f r by (intro conjI; linarith)
  qed
qed

lemma round_half_even_nearest: "\<bar>of_int (round_half_even m) - m\<bar> \<le> \<bar>of_int k - m\<bar>"
proof (cases "k = round_half_even m")
  case True
  then show ?thesis by simp
next
  case False
  then have "1 \<le> \<bar>k - round_half_even m\<bar>" by linarith
  then have "(1::rat) \<le> of_int \<bar>k - round_half_even m\<bar>" by (simp only: of_int_1_le_iff)
  then have "1 \<le> \<bar>of_int k - (of_int (round_half_even m) :: rat)\<bar>" by simp
  then show ?thesis using round_half_even_close[of m] by linarith
qed

lemma round_half_even_nonneg: "0 \<le> m \<Longrightarrow> 0 \<le> round_half_even m"
  by (auto simp: round_half_even_def Let_def)

lemma nearest_double_sign:
  fixes x :: rat
  defines "u \<equiv> pow2 (floor_log2 \<bar>x\<bar> - 52)"
  defines "d \<equiv> of_int (round_half_even (\<bar>x\<bar> / u)) * u"
  shows "0 \<le> d \<and> nearest_double x = (if x = 0 then 0 else if x < 0 then - d else d)"
proof -
  have u: "0 < u" unfolding u_def by (rule pow2_pos)
  then have "0 \<le> \<bar>x\<bar> / u" by simp
  then have "0 \<le> round_half_even (\<bar>x\<bar> / u)" by (rule round_half_even_nonneg)
  then have "0 \<le> d" using u unfolding d_def by simp
  moreover have "nearest_double x = (if x = 0 then 0 else if x < 0 then - d else d)"
    by (simp add: nearest_double_def Let_def d_def u_def)
  ultimately show ?thesis by simp
qed

lemma nearest_double_nearest:
  "\<bar>nearest_double x - x\<bar>
     \<le> \<bar>of_int k * pow2 (floor_log2 \<bar>x\<bar> - 52) - \<bar>x\<bar>\<bar>"
proof (cases "x = 0")
  case True
  then show ?thesis by (simp add: nearest_double_def)
next
  case False
  define u where "u = pow2 (floor_log2 \<bar>x\<bar> - 52)"
  define n where "n = round_half_even (\<bar>x\<bar> / u)"
  have u: "0 < u" unfolding u_def by (rule pow2_pos)
  have scale: "\<bar>of_int j * u - \<bar>x\<bar>\<bar> = \<bar>of_int j - \<bar>x\<bar> / u\<bar> * u" for j :: int
  proof -
    have "of_int j * u - \<bar>x\<bar> = (of_int j - \<bar>x\<bar> / u) * u" using u by (simp add: field_simps)
    then show ?thesis using u by (simp add: abs_mult)
  qed
  have "\<bar>of_int n - \<bar>x\<bar> / u\<bar> \<le> \<bar>of_int k - \<bar>x\<bar> / u\<bar>"
    unfolding n_def by (rule round_half_even_nearest)
  then have "\<bar>of_int n - \<bar>x\<bar> / u\<bar> * u \<le> \<bar>of_int k - \<bar>x\<bar> / u\<bar> * u"
    using u by (simp only: mult_le_cancel_right_pos)
  then have d: "\<bar>of_int n * u - \<bar>x\<bar>\<bar> \<le> \<bar>of_int k * u - \<bar>x\<bar>\<bar>" by (simp only: scale)
  have nd: "nearest_double x = (if x < 0 then - (of_int n * u) else of_int n * u)"
    using False nearest_double_sign[of x] by (simp add: n_def u_def)
  have "\<bar>nearest_double x - x\<bar> = \<bar>of_int n * u - \<bar>x\<bar>\<bar>"
  proof (cases "x < 0")
    case True
    then have "nearest_double x - x = - (of_int n * u - \<bar>x\<bar>)" by (simp add: nd)
    then show ?thesis by (simp only: abs_minus)
  next
    case False
    then show ?thesis by (simp add: nd)
  qed
  then show ?thesis using d by (simp add: u_def)
qed

lemma nearest_double_close: "\<bar>nearest_double x - x\<bar> \<le> \<bar>x\<bar> / 2 ^ 53"
proof (cases "x = 0")
  case True
  then show ?thesis by (simp add: nearest_double_def)
next
  case False
  define u where "u = pow2 (floor_log2 \<bar>x\<bar> - 52)"
  define n where "n = round_half_even (\<bar>x\<bar> / u)"
  have u: "0 < u" unfolding u_def by (rule pow2_pos)
  have "\<bar>of_int n - \<bar>x\<bar> / u\<bar> \<le> 1 / 2" unfolding n_def by (rule round_half_even_close)
  then have "\<bar>of_int n - \<bar>x\<bar> / u\<bar> * u \<le> 1 / 2 * u"
    using u by (simp only: mult_le_cancel_right_pos)
  moreover have "\<bar>of_int n - \<bar>x\<bar> / u\<bar> * u = \<bar>of_int n * u - \<bar>x\<bar>\<bar>"
  proof -
    have "of_int n * u - \<bar>x\<bar> = (of_int n - \<bar>x\<bar> / u) * u" using u by (simp add: field_simps)
    then show ?thesis using u by (simp add: abs_mult)
  qed
  ultimately have d: "\<bar>of_int n * u - \<bar>x\<bar>\<bar> \<le> u / 2" by simp
  have nd: "nearest_double x = (if x < 0 then - (of_int n * u) else of_int n * u)"
    using False nearest_double_sign[of x] by (simp add: n_def u_def)
  have "\<bar>nearest_double x - x\<bar> = \<bar>of_int n * u - \<bar>x\<bar>\<bar>"
  proof (cases "x < 0")
    case True
    then have "nearest_double x - x = - (of_int n * u - \<bar>x\<bar>)" by (simp add: nd)
    then show ?thesis by (simp only: abs_minus)
  next
    case False
    then show ?thesis by (simp add: nd)
  qed
  with d have close: "\<bar>nearest_double x - x\<bar> \<le> u / 2" by simp
  have "pow2 (floor_log2 \<bar>x\<bar>) \<le> \<bar>x\<bar>" using floor_log2_bounds[of "\<bar>x\<bar>"] False by simp
  then have "u / 2 \<le> \<bar>x\<bar> / 2 ^ 53" by (simp add: u_def pow2_diff)
  with close show ?thesis by simp
qed

lemma nearest_double_significand:
  assumes "x \<noteq> 0"
  shows "\<exists>n. \<bar>nearest_double x\<bar> = of_int n * pow2 (floor_log2 \<bar>x\<bar> - 52)
             \<and> 2 ^ 52 \<le> n \<and> n \<le> 2 ^ 53"
proof -
  define u where "u = pow2 (floor_log2 \<bar>x\<bar> - 52)"
  define q where "q = \<bar>x\<bar> / pow2 (floor_log2 \<bar>x\<bar>)"
  define n where "n = round_half_even (\<bar>x\<bar> / u)"
  have a: "0 < \<bar>x\<bar>" using assms by simp
  have p: "0 < pow2 (floor_log2 \<bar>x\<bar>)" by (rule pow2_pos)
  have m: "\<bar>x\<bar> / u = q * 2 ^ 52" by (simp add: u_def q_def pow2_diff)
  have q: "1 \<le> q" "q < 2"
    using floor_log2_bounds[OF a] p unfolding q_def by (simp_all add: field_simps)
  have "2 ^ 52 \<le> q * 2 ^ 52" "q * 2 ^ 52 < 2 ^ 53" using q by simp_all
  then have "2 ^ 52 \<le> \<bar>x\<bar> / u" "\<bar>x\<bar> / u < 2 ^ 53" by (simp_all only: m)
  then have fl: "2 ^ 52 \<le> \<lfloor>\<bar>x\<bar> / u\<rfloor>" "\<lfloor>\<bar>x\<bar> / u\<rfloor> < 2 ^ 53"
    by (simp_all add: le_floor_iff floor_less_iff)
  have "\<lfloor>\<bar>x\<bar> / u\<rfloor> \<le> n" "n \<le> \<lfloor>\<bar>x\<bar> / u\<rfloor> + 1"
    using round_half_even_cases[of "\<bar>x\<bar> / u"] unfolding n_def by auto
  then have n: "2 ^ 52 \<le> n" "n \<le> 2 ^ 53" using fl by linarith+
  have "0 \<le> of_int n * u \<and>
        nearest_double x = (if x = 0 then 0 else if x < 0 then - (of_int n * u) else of_int n * u)"
    using nearest_double_sign[of x] by (simp add: n_def u_def)
  then have "\<bar>nearest_double x\<bar> = of_int n * u"
    using assms by (simp split: if_splits)
  then show ?thesis using n unfolding u_def by blast
qed

text \<open>
  The decimals 72.35 and 19.95 stand for doubles just below them; 72.3, 70 and 0.25 are
  shown for comparison, and \<open>2^53 + 1\<close> is a tie, which goes to the even significand.
\<close>

lemma nearest_double_examples:
  "nearest_double (7235 / 100) = 2545589320626995 / 35184372088832
   \<and> nearest_double (7235 / 100) < 7235 / 100
   \<and> nearest_double (1995 / 100) = 5615425785377587 / 281474976710656
   \<and> nearest_double (1995 / 100) < 1995 / 100
   \<and> nearest_double (723 / 10) = 5087660204045107 / 70368744177664
   \<and> nearest_double 70 = 70
   \<and> nearest_double (1 / 4) = 1 / 4
   \<and> nearest_double 9007199254740993 = 9007199254740992"
  by code_simp

text \<open>
  So \<open>parseFloat((72.35).toFixed(1))\<close> is 72.3 and \<open>parseFloat((19.95).toFixed(1))\<close> is
  19.9, while 0.25, a double itself, is a tie and goes up to 0.3. The arguments are
  written in lowest terms: 1447/20 is 72.35, 399/20 is 19.95 and 1751/25 is 70.04.
\<close>

lemma toFixed1_examples:
  "toFixed1 (Fin (723 / 10)) = Fin (723 / 10)
   \<and> toFixed1 (Fin (1447 / 20)) = Fin (723 / 10)
   \<and> toFixed1 (Fin (399 / 20)) = Fin (199 / 10)
   \<and> toFixed1 (Fin (- 1447 / 20)) = Fin (- 723 / 10)
   \<and> toFixed1 (Fin (1751 / 25)) = Fin 70
   \<and> toFixed1 (Fin (1 / 4)) = Fin (3 / 10)
   \<and> toFixed1 (Fin 70) = Fin 70
   \<and> toFixed1 (Fin 0) = Fin 0"
  by code_simp

lemma tenth_close:
  fixes q x :: rat
  assumes "x \<le> q * 10 + 1 / 2" and "q * 10 + 1 / 2 < x + 1"
  shows "\<bar>x / 10 - q\<bar> \<le> 1 / 20"
  unfolding abs_le_iff using assms by (intro conjI; linarith)

text \<open>
  Below \<open>10^21\<close> the result is a multiple of one tenth within half a tenth of the double.
\<close>

lemma toFixed1_one_decimal:
  assumes "\<bar>nearest_double q\<bar> < 10 ^ 21"
  shows "\<exists>n::int. toFixed1 (Fin q) = Fin (of_int n / 10)
                  \<and> \<bar>of_int n / 10 - nearest_double q\<bar> \<le> 1 / 20"
proof (cases "nearest_double q < 0")
  case False
  let ?x = "nearest_double q"
  let ?n = "\<lfloor>?x * 10 + 1 / 2\<rfloor>"
  have "of_int ?n \<le> ?x * 10 + 1 / 2" "?x * 10 + 1 / 2 < of_int ?n + 1"
    by linarith+
  then have "\<bar>of_int ?n / 10 - ?x\<bar> \<le> 1 / 20" by (rule tenth_close)
  moreover have "toFixed1 (Fin q) = Fin (of_int ?n / 10)"
    using assms False by (simp add: Let_def)
  ultimately show ?thesis by blast
next
  case True
  let ?x = "nearest_double q"
  let ?n = "\<lfloor>(- ?x) * 10 + 1 / 2\<rfloor>"
  have "of_int ?n \<le> (- ?x) * 10 + 1 / 2" "(- ?x) * 10 + 1 / 2 < of_int ?n + 1"
    by linarith+
  then have "\<bar>of_int ?n / 10 - (- ?x)\<bar> \<le> 1 / 20" by (rule tenth_close)
  moreover have "of_int (- ?n) / 10 - ?x = - (of_int ?n / 10 - (- ?x))" by simp
  ultimately have "\<bar>of_int (- ?n) / 10 - ?x\<bar> \<le> 1 / 20" by (simp only: abs_minus)
  moreover have "toFixed1 (Fin q) = Fin (of_int (- ?n) / 10)"
    using assms True by (simp add: Let_def)
  ultimately show ?thesis by blast
qed

subsection \<open>The nested parser\<close>

text \<open>
  A value that is present sits in an object inside an object, so the guard
  \<open>data.c && data.c.k && data.c.k.value\<close> comes down to the truthiness of the value.
\<close>

lemma nested_value_supplied:
  assumes "supplied (nested_value data c k)"
  shows "truthy (field data c) \<and> truthy (field (field data c) k)"
proof -
  have obj: "\<exists>kvs. v = JObj kvs" if "field v key \<noteq> JUndefined" for v key
    using that by (cases v) (simp_all add: field_def)
  from assms have 1: "field (field (field data c) k) ''value'' \<noteq> JUndefined"
    by (simp add: nested_value_def supplied_def)
  then obtain kvs where 2: "field (field data c) k = JObj kvs" using obj by blast
  then have "field (field data c) k \<noteq> JUndefined" by simp
  then obtain kvs' where 3: "field data c = JObj kvs'" using obj by blast
  from 2 3 show ?thesis by simp
qed

lemma channel_value_nested_value:
  "channel_value data c k =
     (if truthy (nested_value data c k) then Some (nested_value data c k) else None)"
  using nested_value_supplied[of data c k] truthy_supplied[of "nested_value data c k"]
  by (auto simp: channel_value_def nested_value_def)

text \<open>
  The last declaration assigns the indoor value first and lets the outdoor one overwrite
  it: the outdoor value decides when it is truthy, otherwise the indoor one when it is.
\<close>

lemma parseEcowittCloudData_temperature:
  "\<exists>r. parseEcowittCloudData now (JObj kvs) = Inr r
       \<and> temperature r =
           (if truthy (nested_value (JObj kvs) ''outdoor'' ''temperature'')
            then Some (toFixed1 (parseFloat (nested_value (JObj kvs) ''outdoor'' ''temperature'')))
            else if truthy (nested_value (JObj kvs) ''indoor'' ''temperature'')
            then Some (toFixed1 (parseFloat (nested_value (JObj kvs) ''indoor'' ''temperature'')))
            else None)"
  by (simp add: parseEcowittCloudData_def Let_def channel_value_nested_value)

text \<open>
  On a nested payload in which each of the two temperature values, when present, is
  truthy, the code resolves the temperature as the specification says.
\<close>

lemma parseEcowittCloudData_temperature_agrees:
  assumes "\<forall>c \<in> {''outdoor'', ''indoor''}.
             supplied (nested_value (JObj kvs) c ''temperature'')
             \<longrightarrow> truthy (nested_value (JObj kvs) c ''temperature'')"
  shows "\<exists>r. parseEcowittCloudData now (JObj kvs) = Inr r
             \<and> temperature r = spec_nested_temperature (JObj kvs)"
proof -
  have eq: "supplied (nested_value (JObj kvs) c ''temperature'')
            = truthy (nested_value (JObj kvs) c ''temperature'')"
    if "c \<in> {''outdoor'', ''indoor''}" for c
    using assms that truthy_supplied[of "nested_value (JObj kvs) c ''temperature''"]
    by blast
  have "spec_nested_temperature (JObj kvs) =
           (if truthy (nested_value (JObj kvs) ''outdoor'' ''temperature'')
            then Some (toFixed1 (parseFloat (nested_value (JObj kvs) ''outdoor'' ''temperature'')))
            else if truthy (nested_value (JObj kvs) ''indoor'' ''temperature'')
            then Some (toFixed1 (parseFloat (nested_value (JObj kvs) ''indoor'' ''temperature'')))
            else None)"
    unfolding spec_nested_temperature_def by (simp only: eq insertI1 insertI2)
  then show ?thesis
    using parseEcowittCloudData_temperature[of now kvs] by simp
qed

lemma parseFloat_examples:
  "parseFloat (JStr ''72.3'') = Fin (723 / 10)
   \<and> parseFloat (JStr ''72.35'') = Fin (7235 / 100)
   \<and> parseFloat (JStr ''70.04'') = Fin (7004 / 100)
   \<and> parseFloat (JStr ''19.95'') = Fin (1995 / 100)"
  by (simp add: parse_defs)

text \<open>
  The example of the specification, \<open>{outdoor: {temperature: {value: "72.3"}}}\<close>, gives
  72.3 with no conversion. An outdoor \<open>"72.35"\<close> goes before an indoor \<open>"70.04"\<close> and
  gives 72.3, and an indoor \<open>"19.95"\<close> alone gives 19.9.
\<close>

lemma nested_temperature_examples:
  "map_sum id temperature
     (parseEcowittCloudData now
        (JObj [(''outdoor'', JObj [(''temperature'', JObj [(''value'', JStr ''72.3'')])])]))
     = Inr (Some (Fin (723 / 10)))
   \<and> map_sum id temperature
       (parseEcowittCloudData now
          (JObj [(''indoor'', JObj [(''temperature'', JObj [(''value'', JStr ''70.04'')])]),
                 (''outdoor'', JObj [(''temperature'', JObj [(''value'', JStr ''72.35'')])])]))
       = Inr (Some (Fin (723 / 10)))
   \<and> map_sum id temperature
       (parseEcowittCloudData now
          (JObj [(''indoor'', JObj [(''temperature'', JObj [(''value'', JStr ''19.95'')])])]))
       = Inr (Some (Fin (199 / 10)))"
  by (simp add: parseEcowittCloudData_def channel_value_def field_def Let_def
        parseFloat_examples toFixed1_examples del: toFixed1.simps parseFloat.simps)

text \<open>
  C7 fails on the code: on the nested payload
  \<open>{outdoor: {temperature: {value: 0}}, indoor: {temperature: {value: "70"}}}\<close> the
  outdoor value is present, so the temperature is that value, 0, which is what the
  specification's resolution gives. Both declarations of \<open>parseEcowittCloudData\<close> return
  the indoor value 70: the last one because its guard tests the outdoor value for
  truthiness and passes over the number \<open>0\<close>, the v11 one because it falls back to the
  indoor block when \<open>!parsed.temperature\<close>, which holds of \<open>0\<close>.
\<close>

theorem C7_numeric_zero_outdoor_skipped:
  "map_sum id temperature
     (parseEcowittCloudData now
        (JObj [(''outdoor'', JObj [(''temperature'', JObj [(''value'', JNum (Fin 0))])]),
               (''indoor'', JObj [(''temperature'', JObj [(''value'', JStr ''70'')])])]))
     = Inr (Some (Fin 70))
   \<and> map_sum id temperature
       (parseEcowittCloudData_v11 now
          (JObj [(''outdoor'', JObj [(''temperature'', JObj [(''value'', JNum (Fin 0))])]),
                 (''indoor'', JObj [(''temperature'', JObj [(''value'', JStr ''70'')])])]))
       = Inr (Some (Fin 70))
   \<and> spec_nested_temperature
         (JObj [(''outdoor'', JObj [(''temperature'', JObj [(''value'', JNum (Fin 0))])]),
                (''indoor'', JObj [(''temperature'', JObj [(''value'', JStr ''70'')])])])
       = Some (Fin 0)"
proof -
  have 70: "toFixed1 (Fin 70) = Fin 70" by code_simp
  have 0: "toFixed1 (Fin 0) = Fin 0" by code_simp
  show ?thesis
    by (simp add: parseEcowittCloudData_def parseEcowittCloudData_v11_def not_set_def
          leaf_first_def channel_value_def spec_nested_temperature_def nested_value_def
          supplied_def parse_defs 70 0 del: toFixed1.simps)
qed

text \<open>
  The v11 declaration reads the outdoor value first and keeps it when it is a number
  other than \<open>0\<close> and NaN; it does not round.
\<close>

lemma parseEcowittCloudData_v11_temperature:
  "\<exists>r. parseEcowittCloudData_v11 now
          (JObj [(''outdoor'', JObj [(''temperature'', JObj [(''value'', JStr ''72.34'')])]),
                 (''indoor'', JObj [(''temperature'', JObj [(''value'', JStr ''70'')])])])
        = Inr r \<and> temperature r = Some (Fin (7234 / 100))"
  by (simp add: parseEcowittCloudData_v11_def not_set_def leaf_first_def parse_defs)

subsection \<open>Ingestion\<close>

text \<open>
  C3 fails on the code: a payload whose only metric field holds text that is no number is
  stored, with the temperature NaN, and the store grows by one reading. (The request is
  acknowledged with \<open>success\<close> all the same.)
\<close>

theorem C3_malformed_metric_is_stored:
  "post_api_ecowitt 0 (JObj [(''tempf'', JStr ''abc'')]) \<lparr> sensorData = [], lastRawData = None \<rparr>
   = (Send 200 ''success'',
      \<lparr> sensorData = [\<lparr> timestamp = 0, raw = JObj [(''tempf'', JStr ''abc'')],
                         temperature = Some NaN, humidity = None, soilMoisture1 = MNull,
                         soilMoisture2 = MNull, leafWetness = MNull,
                         stationtype = JStr ''Unknown'', passkey = JStr ''Unknown'',
                         dateutc = JUndefined \<rparr>],
        lastRawData = Some \<lparr> rd_timestamp = 0, rd_source = None,
                              rd_data = JObj [(''tempf'', JStr ''abc'')] \<rparr> \<rparr>)"
  by (simp add: post_api_ecowitt_def has_sensor_data_def store_reading_def MAX_READINGS_def
                parse_defs)

text \<open>
  The part of C3 the code does keep: a payload none of whose metric fields passes the
  source's test is not stored, and every object payload is acknowledged with \<open>success\<close>.
\<close>

lemma get_object: "get (JObj kvs) k = Inr (field (JObj kvs) k)"
  by (simp add: field_def)

lemma post_api_ecowitt_no_metric:
  assumes "\<forall>k \<in> set monitored_fields. \<not> truthy (field (JObj kvs) k)"
  shows "post_api_ecowitt now (JObj kvs) s
         = (Send 200 ''success'',
            s\<lparr>lastRawData := Some \<lparr>rd_timestamp = now, rd_source = None, rd_data = JObj kvs\<rparr>\<rparr>)"
proof -
  have f: "\<not> truthy (field (JObj kvs) ''tempf'')" "\<not> truthy (field (JObj kvs) ''temp1f'')"
    "\<not> truthy (field (JObj kvs) ''tempinf'')" "\<not> truthy (field (JObj kvs) ''temp'')"
    "\<not> truthy (field (JObj kvs) ''soilmoisture1'')" "\<not> truthy (field (JObj kvs) ''soilhum1'')"
    "\<not> truthy (field (JObj kvs) ''soilmoisture2'')" "\<not> truthy (field (JObj kvs) ''soilhum2'')"
    "\<not> truthy (field (JObj kvs) ''leafwetness_ch1'')" "\<not> truthy (field (JObj kvs) ''leafwetness1'')"
    "\<not> truthy (field (JObj kvs) ''leafwet_ch1'')"
    using assms by (simp_all add: monitored_fields_def)
  show ?thesis
    by (simp add: post_api_ecowitt_def has_sensor_data_def parseEcowittData_def get_object f
             del: get.simps)
qed

lemma parseEcowittData_object: "\<exists>r. parseEcowittData now (JObj kvs) = Inr r"
  by (simp add: parseEcowittData_def)

lemma post_api_ecowitt_acknowledges:
  "fst (post_api_ecowitt now (JObj kvs) s) = Send 200 ''success''"
proof -
  obtain r where "parseEcowittData now (JObj kvs) = Inr r"
    using parseEcowittData_object by blast
  then show ?thesis by (simp add: post_api_ecowitt_def Let_def)
qed

text \<open>
  The cloud path stores every payload: its parser leaves the soil and leaf fields unset
  rather than \<open>null\<close>, and the guard compares them with \<open>null\<close>.
\<close>

lemma fetchEcowittData_stores_empty_payload:
  "sensorData (fetchEcowittData 0 (JObj [(''code'', JNum (Fin 0)), (''data'', JObj [])])
      \<lparr> sensorData = [], lastRawData = None \<rparr>)
   = [\<lparr> timestamp = 0, raw = JObj [], temperature = None, humidity = None,
        soilMoisture1 = MUndefined, soilMoisture2 = MUndefined, leafWetness = MUndefined,
        stationtype = JUndefined, passkey = JUndefined, dateutc = JUndefined \<rparr>]"
  by (simp add: fetchEcowittData_def parseEcowittCloudData_def channel_value_def field_def
                has_sensor_data_def store_reading_def MAX_READINGS_def)

subsection \<open>Alerts\<close>

lemma insertion_point_by_pivot:
  "(\<forall>a b. order_negative (cmp a b) = P a) \<Longrightarrow> left \<le> right \<Longrightarrow>
   insertion_point cmp pivot xs left right = (if P pivot then left else right)"
proof (induction cmp pivot xs left right rule: insertion_point.induct)
  case (1 cmp pivot xs left right)
  show ?case
  proof (cases "left < right")
    case False
    with "1.prems" show ?thesis by (simp add: insertion_point.simps)
  next
    case lt: True
    define mid where "mid = left + (right - left) div 2"
    have mid: "left \<le> mid" "mid < right" using lt by (auto simp: mid_def)
    have neg: "order_negative (cmp pivot (xs ! mid)) = P pivot" using "1.prems"(1) by simp
    show ?thesis
    proof (cases "P pivot")
      case True
      with neg have n: "order_negative (cmp pivot (xs ! mid))" by simp
      have "insertion_point cmp pivot xs left right = insertion_point cmp pivot xs left mid"
        using lt n by (subst insertion_point.simps) (simp add: mid_def Let_def)
      also have "\<dots> = left" using "1.IH"(1)[OF lt mid_def n "1.prems"(1)] mid True by simp
      finally show ?thesis using True by simp
    next
      case False
      with neg have n: "\<not> order_negative (cmp pivot (xs ! mid))" by simp
      have "insertion_point cmp pivot xs left right = insertion_point cmp pivot xs (mid + 1) right"
        using lt n by (subst insertion_point.simps) (simp add: mid_def Let_def)
      also have "\<dots> = right" using "1.IH"(2)[OF lt mid_def n "1.prems"(1)] mid False by simp
      finally show ?thesis using False by simp
    qed
  qed
qed

lemma binary_insertion_sort_by_pivot:
  assumes ok: "\<forall>a b. order_negative (cmp a b) = P a"
  shows "binary_insertion_sort cmp work rest
         = rev (filter P rest) @ work @ filter (\<lambda>a. \<not> P a) rest"
proof (induction rest arbitrary: work)
  case Nil
  show ?case by simp
next
  case (Cons p rest)
  have ip: "insertion_point cmp p work 0 (length work) = (if P p then 0 else length work)"
    using insertion_point_by_pivot[OF ok, of 0 "length work" p work] by simp
  show ?case by (simp add: ip Cons.IH Let_def)
qed

lemma run_extend_by_pivot:
  assumes ok: "\<forall>a b. order_negative (cmp a b) = P a"
  shows "run_extend cmp desc prev cs
         = (takeWhile (\<lambda>c. P c = desc) cs, dropWhile (\<lambda>c. P c = desc) cs)"
  using ok by (induction cs arbitrary: prev) auto

lemma filter_takeWhile_same: "filter P (takeWhile P xs) = takeWhile P xs"
  by (induction xs) auto

lemma filter_takeWhile_other: "filter (\<lambda>a. \<not> P a) (takeWhile P xs) = []"
  by (induction xs) auto

text \<open>
  A comparator whose sign depends on its first argument alone: the elements that compare
  negative come first, in reverse order, and the others follow in their original order.
\<close>

lemma array_sort_by_pivot:
  assumes ok: "\<forall>a b. order_negative (cmp a b) = P a"
  shows "array_sort cmp xs = rev (filter P xs) @ filter (\<lambda>a. \<not> P a) xs"
proof (cases "(cmp, xs)" rule: count_and_make_run.cases)
  case (1 c)
  then show ?thesis by (simp add: array_sort_def)
next
  case (2 c x)
  then show ?thesis by (simp add: array_sort_def)
next
  case (3 c x0 x1 ys)
  then have xs: "xs = x0 # x1 # ys" by simp
  have neg: "order_negative (cmp x1 x0) = P x1" using ok by simp
  have split: "takeWhile Q ys @ dropWhile Q ys = ys" for Q :: "'a \<Rightarrow> bool" by simp
  show ?thesis
  proof (cases "P x1")
    case True
    let ?r = "takeWhile P ys" and ?rest = "dropWhile P ys"
    have fP: "filter P ys = ?r @ filter P ?rest"
      by (metis filter_append filter_takeWhile_same split)
    have fN: "filter (\<lambda>a. \<not> P a) ys = filter (\<lambda>a. \<not> P a) ?rest"
      by (metis append_Nil filter_append filter_takeWhile_other split)
    have "array_sort cmp xs = rev (filter P ?rest) @ rev (x0 # x1 # ?r) @ filter (\<lambda>a. \<not> P a) ?rest"
      using True neg xs
      by (simp add: array_sort_def run_extend_by_pivot[OF ok] binary_insertion_sort_by_pivot[OF ok] Let_def)
    then show ?thesis using True xs fP fN by simp
  next
    case False
    let ?r = "takeWhile (\<lambda>a. \<not> P a) ys" and ?rest = "dropWhile (\<lambda>a. \<not> P a) ys"
    have fN: "filter (\<lambda>a. \<not> P a) ys = ?r @ filter (\<lambda>a. \<not> P a) ?rest"
      by (metis filter_append filter_takeWhile_same split)
    have fP: "filter P ys = filter P ?rest"
      using filter_takeWhile_other[of "\<lambda>a. \<not> P a" ys]
      by (metis (mono_tags, lifting) append_Nil filter_append filter_cong split)
    have "array_sort cmp xs = rev (filter P ?rest) @ (x0 # x1 # ?r) @ filter (\<lambda>a. \<not> P a) ?rest"
      using False neg xs
      by (simp add: array_sort_def run_extend_by_pivot[OF ok] binary_insertion_sort_by_pivot[OF ok] Let_def)
    then show ?thesis using False xs fP fN by simp
  qed
qed

lemma severity_compare_negative:
  "order_negative (severity_compare a b) = (severity a = ''critical'')"
  by (simp add: severity_compare_def order_negative_def)

lemma sort_alerts:
  "array_sort severity_compare xs
   = rev (filter (\<lambda>a. severity a = ''critical'') xs) @ filter (\<lambda>a. severity a \<noteq> ''critical'') xs"
  by (rule array_sort_by_pivot) (simp add: severity_compare_negative)

lemmas alert_defs = pushed_alerts_def check_temperature_def check_soilMoisture_def
  check_leafWetness_def ranges_temperature_def ranges_soilMoisture_def
  ranges_leafWetness_max_def ranges_leafWetness_critical_max_def num_gt_def

text \<open>
  C4 fails on the code: with a critically low temperature and a critically dry soil sensor
  1 the two critical alerts come out in the reverse of their insertion order.
\<close>

theorem C4_critical_alerts_reversed:
  "map metric (response_alerts (fst (get_api_alerts
      \<lparr> sensorData = [\<lparr> timestamp = 0, raw = JNull, temperature = Some (Fin 5),
                         humidity = None, soilMoisture1 = MNum (Fin 10), soilMoisture2 = MNull,
                         leafWetness = MNull, stationtype = JUndefined, passkey = JUndefined,
                         dateutc = JUndefined \<rparr>],
        lastRawData = None \<rparr>)))
   = [''soilMoisture1'', ''temperature'']"
  by (simp add: get_api_alerts_def sort_alerts alert_defs Let_def)

text \<open>
  What does hold: the critical alerts precede the warnings, and the warnings keep their
  insertion order.
\<close>

lemma response_alerts_order:
  "sensorData s \<noteq> [] \<Longrightarrow>
   response_alerts (fst (get_api_alerts s))
   = rev (filter (\<lambda>a. severity a = ''critical'') (pushed_alerts (last (sensorData s))))
     @ filter (\<lambda>a. severity a \<noteq> ''critical'') (pushed_alerts (last (sensorData s)))"
  by (simp add: get_api_alerts_def Let_def sort_alerts)

lemma short_list_partition:
  "length xs \<le> 1 \<Longrightarrow> rev (filter P xs) @ filter (\<lambda>a. \<not> P a) xs = xs"
  by (cases xs) auto

lemma filter_sort_alerts:
  "length (filter Q xs) \<le> 1 \<Longrightarrow> filter Q (array_sort severity_compare xs) = filter Q xs"
proof -
  assume l: "length (filter Q xs) \<le> 1"
  have "filter Q (array_sort severity_compare xs)
        = rev (filter (\<lambda>a. severity a = ''critical'') (filter Q xs))
          @ filter (\<lambda>a. \<not> severity a = ''critical'') (filter Q xs)"
    by (simp add: sort_alerts rev_filter[symmetric] conj_commute)
  also have "\<dots> = filter Q xs" using l by (rule short_list_partition)
  finally show ?thesis .
qed

lemma metric_check_temperature:
  "a \<in> set (check_temperature latest) \<Longrightarrow> metric a = ''temperature''"
  by (auto simp: check_temperature_def split: option.splits if_splits)

lemma metric_check_soilMoisture:
  "a \<in> set (check_soilMoisture num m) \<Longrightarrow> metric a = ''soilMoisture'' @ num"
  by (auto simp: check_soilMoisture_def split: mval.splits if_splits)

lemma metric_check_leafWetness:
  "a \<in> set (check_leafWetness latest) \<Longrightarrow> metric a = ''leafWetness''"
  by (auto simp: check_leafWetness_def split: mval.splits if_splits)

lemma temperature_alerts:
  "filter (\<lambda>a. metric a = ''temperature'') (pushed_alerts latest) = check_temperature latest"
proof -
  have "filter (\<lambda>a. metric a = ''temperature'') (check_temperature latest) = check_temperature latest"
    by (rule filter_True) (simp add: metric_check_temperature)
  moreover have "filter (\<lambda>a. metric a = ''temperature'') (check_soilMoisture num m) = []" for num m
    by (rule filter_False) (auto dest: metric_check_soilMoisture)
  moreover have "filter (\<lambda>a. metric a = ''temperature'') (check_leafWetness latest) = []"
    by (rule filter_False) (auto dest: metric_check_leafWetness)
  ultimately show ?thesis by (simp add: pushed_alerts_def)
qed

lemma soilMoisture1_alerts:
  "filter (\<lambda>a. metric a = ''soilMoisture1'') (pushed_alerts latest)
   = check_soilMoisture ''1'' (soilMoisture1 latest)"
proof -
  have "filter (\<lambda>a. metric a = ''soilMoisture1'') (check_temperature latest) = []"
    by (rule filter_False) (auto dest: metric_check_temperature)
  moreover have "filter (\<lambda>a. metric a = ''soilMoisture1'') (check_soilMoisture ''1'' m)
                 = check_soilMoisture ''1'' m" for m
    by (rule filter_True) (auto dest: metric_check_soilMoisture)
  moreover have "filter (\<lambda>a. metric a = ''soilMoisture1'') (check_soilMoisture ''2'' m) = []" for m
    by (rule filter_False) (auto dest: metric_check_soilMoisture)
  moreover have "filter (\<lambda>a. metric a = ''soilMoisture1'') (check_leafWetness latest) = []"
    by (rule filter_False) (auto dest: metric_check_leafWetness)
  ultimately show ?thesis by (simp add: pushed_alerts_def)
qed

lemma soilMoisture2_alerts:
  "filter (\<lambda>a. metric a = ''soilMoisture2'') (pushed_alerts latest)
   = check_soilMoisture ''2'' (soilMoisture2 latest)"
proof -
  have "filter (\<lambda>a. metric a = ''soilMoisture2'') (check_temperature latest) = []"
    by (rule filter_False) (auto dest: metric_check_temperature)
  moreover have "filter (\<lambda>a. metric a = ''soilMoisture2'') (check_soilMoisture ''2'' m)
                 = check_soilMoisture ''2'' m" for m
    by (rule filter_True) (auto dest: metric_check_soilMoisture)
  moreover have "filter (\<lambda>a. metric a = ''soilMoisture2'') (check_soilMoisture ''1'' m) = []" for m
    by (rule filter_False) (auto dest: metric_check_soilMoisture)
  moreover have "filter (\<lambda>a. metric a = ''soilMoisture2'') (check_leafWetness latest) = []"
    by (rule filter_False) (auto dest: metric_check_leafWetness)
  ultimately show ?thesis by (simp add: pushed_alerts_def)
qed

lemma leafWetness_alerts:
  "filter (\<lambda>a. metric a = ''leafWetness'') (pushed_alerts latest) = check_leafWetness latest"
proof -
  have "filter (\<lambda>a. metric a = ''leafWetness'') (check_temperature latest) = []"
    by (rule filter_False) (auto dest: metric_check_temperature)
  moreover have "filter (\<lambda>a. metric a = ''leafWetness'') (check_soilMoisture num m) = []" for num m
    by (rule filter_False) (auto dest: metric_check_soilMoisture)
  moreover have "filter (\<lambda>a. metric a = ''leafWetness'') (check_leafWetness latest)
                 = check_leafWetness latest"
    by (rule filter_True) (simp add: metric_check_leafWetness)
  ultimately show ?thesis by (simp add: pushed_alerts_def)
qed

lemma length_check_temperature: "length (check_temperature latest) \<le> 1"
  by (simp add: check_temperature_def split: option.splits)

lemma length_check_soilMoisture: "length (check_soilMoisture num m) \<le> 1"
  by (simp add: check_soilMoisture_def split: mval.splits)

lemma length_check_leafWetness: "length (check_leafWetness latest) \<le> 1"
  by (simp add: check_leafWetness_def split: mval.splits)

lemma response_alerts_get:
  "sensorData s \<noteq> [] \<Longrightarrow>
   response_alerts (fst (get_api_alerts s))
   = array_sort severity_compare (pushed_alerts (last (sensorData s)))"
  by (simp add: get_api_alerts_def Let_def)

lemma filtered_response_alerts:
  assumes "sensorData s \<noteq> []" and "length (filter Q (pushed_alerts (last (sensorData s)))) \<le> 1"
  shows "filter Q (response_alerts (fst (get_api_alerts s)))
         = filter Q (pushed_alerts (last (sensorData s)))"
  using assms by (simp add: response_alerts_get filter_sort_alerts)

lemma temperature_response_alerts:
  assumes "sensorData s \<noteq> []"
  shows "filter (\<lambda>a. metric a = ''temperature'') (response_alerts (fst (get_api_alerts s)))
         = check_temperature (last (sensorData s))"
proof -
  have "length (filter (\<lambda>a. metric a = ''temperature'') (pushed_alerts (last (sensorData s)))) \<le> 1"
    by (simp only: temperature_alerts length_check_temperature)
  from filtered_response_alerts[OF assms this] show ?thesis
    by (simp only: temperature_alerts)
qed

lemma soilMoisture1_response_alerts:
  assumes "sensorData s \<noteq> []"
  shows "filter (\<lambda>a. metric a = ''soilMoisture1'') (response_alerts (fst (get_api_alerts s)))
         = check_soilMoisture ''1'' (soilMoisture1 (last (sensorData s)))"
proof -
  have "length (filter (\<lambda>a. metric a = ''soilMoisture1'') (pushed_alerts (last (sensorData s)))) \<le> 1"
    by (simp only: soilMoisture1_alerts length_check_soilMoisture)
  from filtered_response_alerts[OF assms this] show ?thesis
    by (simp only: soilMoisture1_alerts)
qed

lemma soilMoisture2_response_alerts:
  assumes "sensorData s \<noteq> []"
  shows "filter (\<lambda>a. metric a = ''soilMoisture2'') (response_alerts (fst (get_api_alerts s)))
         = check_soilMoisture ''2'' (soilMoisture2 (last (sensorData s)))"
proof -
  have "length (filter (\<lambda>a. metric a = ''soilMoisture2'') (pushed_alerts (last (sensorData s)))) \<le> 1"
    by (simp only: soilMoisture2_alerts length_check_soilMoisture)
  from filtered_response_alerts[OF assms this] show ?thesis
    by (simp only: soilMoisture2_alerts)
qed

lemma leafWetness_response_alerts:
  assumes "sensorData s \<noteq> []"
  shows "filter (\<lambda>a. metric a = ''leafWetness'') (response_alerts (fst (get_api_alerts s)))
         = check_leafWetness (last (sensorData s))"
proof -
  have "length (filter (\<lambda>a. metric a = ''leafWetness'') (pushed_alerts (last (sensorData s)))) \<le> 1"
    by (simp only: leafWetness_alerts length_check_leafWetness)
  from filtered_response_alerts[OF assms this] show ?thesis
    by (simp only: leafWetness_alerts)
qed

lemma check_temperature_two_tier:
  "temperature latest = Some v \<Longrightarrow>
   map (\<lambda>a. (metric a, severity a, alert_value a)) (check_temperature latest)
   = map (\<lambda>sv. (''temperature'', sv, v))
       (two_tier (outside_band (Fin 10) (Fin 35) v) (outside_band (Fin 18) (Fin 25) v))"
  by (simp add: check_temperature_def ranges_temperature_def two_tier_def outside_band_def)

lemma check_soilMoisture_two_tier:
  "map (\<lambda>a. (metric a, severity a, alert_value a)) (check_soilMoisture num (MNum v))
   = map (\<lambda>sv. (''soilMoisture'' @ num, sv, v))
       (two_tier (outside_band (Fin 20) (Fin 80) v) (outside_band (Fin 30) (Fin 60) v))"
  by (simp add: check_soilMoisture_def ranges_soilMoisture_def two_tier_def outside_band_def)

lemma check_leafWetness_two_tier:
  "leafWetness latest = MNum v \<Longrightarrow>
   map (\<lambda>a. (metric a, severity a, alert_value a)) (check_leafWetness latest)
   = map (\<lambda>sv. (''leafWetness'', sv, v)) (two_tier (num_gt v (Fin 85)) (num_gt v (Fin 70)))"
  by (simp add: check_leafWetness_def ranges_leafWetness_max_def
                ranges_leafWetness_critical_max_def two_tier_def)

lemma only_temperature_alerts:
  assumes "sensorData s \<noteq> []"
    and "\<forall>m. soilMoisture1 (last (sensorData s)) \<noteq> MNum m"
    and "\<forall>m. soilMoisture2 (last (sensorData s)) \<noteq> MNum m"
    and "\<forall>m. leafWetness (last (sensorData s)) \<noteq> MNum m"
  shows "response_alerts (fst (get_api_alerts s)) = check_temperature (last (sensorData s))"
proof -
  let ?l = "last (sensorData s)"
  have "check_soilMoisture ''1'' (soilMoisture1 ?l) = []"
    using assms(2) by (simp add: check_soilMoisture_def split: mval.splits)
  moreover have "check_soilMoisture ''2'' (soilMoisture2 ?l) = []"
    using assms(3) by (simp add: check_soilMoisture_def split: mval.splits)
  moreover have "check_leafWetness ?l = []"
    using assms(4) by (simp add: check_leafWetness_def split: mval.splits)
  ultimately have p: "pushed_alerts ?l = check_temperature ?l" by (simp add: pushed_alerts_def)
  have "length (check_temperature ?l) < 2" using length_check_temperature[of ?l] by simp
  then show ?thesis using assms(1) by (simp add: response_alerts_get p array_sort_def)
qed

text \<open>
  C8: for the latest reading and each metric that has a value, the alerts about that
  metric in the response are one critical alert when the value is outside the critical
  band, one warning when it is inside the critical but outside the ideal band, and none
  otherwise (for leaf wetness only the upper ends count). A reading with temperature 5
  and no other metric yields exactly one alert, critical, about the temperature;
  temperature 27 yields a warning.
\<close>

theorem C8_alert_severity:
  assumes "sensorData s \<noteq> []"
  shows "(\<forall>v. temperature (last (sensorData s)) = Some v \<longrightarrow>
            map (\<lambda>a. (metric a, severity a, alert_value a))
              (filter (\<lambda>a. metric a = ''temperature'') (response_alerts (fst (get_api_alerts s))))
            = map (\<lambda>sv. (''temperature'', sv, v))
                (two_tier (outside_band (Fin 10) (Fin 35) v) (outside_band (Fin 18) (Fin 25) v)))
       \<and> (\<forall>v. soilMoisture1 (last (sensorData s)) = MNum v \<longrightarrow>
            map (\<lambda>a. (metric a, severity a, alert_value a))
              (filter (\<lambda>a. metric a = ''soilMoisture1'') (response_alerts (fst (get_api_alerts s))))
            = map (\<lambda>sv. (''soilMoisture1'', sv, v))
                (two_tier (outside_band (Fin 20) (Fin 80) v) (outside_band (Fin 30) (Fin 60) v)))
       \<and> (\<forall>v. soilMoisture2 (last (sensorData s)) = MNum v \<longrightarrow>
            map (\<lambda>a. (metric a, severity a, alert_value a))
              (filter (\<lambda>a. metric a = ''soilMoisture2'') (response_alerts (fst (get_api_alerts s))))
            = map (\<lambda>sv. (''soilMoisture2'', sv, v))
                (two_tier (outside_band (Fin 20) (Fin 80) v) (outside_band (Fin 30) (Fin 60) v)))
       \<and> (\<forall>v. leafWetness (last (sensorData s)) = MNum v \<longrightarrow>
            map (\<lambda>a. (metric a, severity a, alert_value a))
              (filter (\<lambda>a. metric a = ''leafWetness'') (response_alerts (fst (get_api_alerts s))))
            = map (\<lambda>sv. (''leafWetness'', sv, v))
                (two_tier (num_gt v (Fin 85)) (num_gt v (Fin 70))))
       \<and> (temperature (last (sensorData s)) = Some (Fin 5)
            \<and> (\<forall>m. soilMoisture1 (last (sensorData s)) \<noteq> MNum m)
            \<and> (\<forall>m. soilMoisture2 (last (sensorData s)) \<noteq> MNum m)
            \<and> (\<forall>m. leafWetness (last (sensorData s)) \<noteq> MNum m) \<longrightarrow>
            map (\<lambda>a. (metric a, severity a)) (response_alerts (fst (get_api_alerts s)))
            = [(''temperature'', ''critical'')])
       \<and> (temperature (last (sensorData s)) = Some (Fin 27) \<longrightarrow>
            map (\<lambda>a. (metric a, severity a))
              (filter (\<lambda>a. metric a = ''temperature'') (response_alerts (fst (get_api_alerts s))))
            = [(''temperature'', ''warning'')])"
proof (intro conjI allI impI)
  fix v assume "temperature (last (sensorData s)) = Some v"
  then show "map (\<lambda>a. (metric a, severity a, alert_value a))
              (filter (\<lambda>a. metric a = ''temperature'') (response_alerts (fst (get_api_alerts s))))
            = map (\<lambda>sv. (''temperature'', sv, v))
                (two_tier (outside_band (Fin 10) (Fin 35) v) (outside_band (Fin 18) (Fin 25) v))"
    by (simp only: temperature_response_alerts[OF assms] check_temperature_two_tier)
next
  fix v assume "soilMoisture1 (last (sensorData s)) = MNum v"
  then show "map (\<lambda>a. (metric a, severity a, alert_value a))
              (filter (\<lambda>a. metric a = ''soilMoisture1'') (response_alerts (fst (get_api_alerts s))))
            = map (\<lambda>sv. (''soilMoisture1'', sv, v))
                (two_tier (outside_band (Fin 20) (Fin 80) v) (outside_band (Fin 30) (Fin 60) v))"
    using check_soilMoisture_two_tier[of "''1''" v]
    by (simp add: soilMoisture1_response_alerts[OF assms])
next
  fix v assume "soilMoisture2 (last (sensorData s)) = MNum v"
  then show "map (\<lambda>a. (metric a, severity a, alert_value a))
              (filter (\<lambda>a. metric a = ''soilMoisture2'') (response_alerts (fst (get_api_alerts s))))
            = map (\<lambda>sv. (''soilMoisture2'', sv, v))
                (two_tier (outside_band (Fin 20) (Fin 80) v) (outside_band (Fin 30) (Fin 60) v))"
    using check_soilMoisture_two_tier[of "''2''" v]
    by (simp add: soilMoisture2_response_alerts[OF assms])
next
  fix v assume "leafWetness (last (sensorData s)) = MNum v"
  then show "map (\<lambda>a. (metric a, severity a, alert_value a))
              (filter (\<lambda>a. metric a = ''leafWetness'') (response_alerts (fst (get_api_alerts s))))
            = map (\<lambda>sv. (''leafWetness'', sv, v)) (two_tier (num_gt v (Fin 85)) (num_gt v (Fin 70)))"
    by (simp only: leafWetness_response_alerts[OF assms] check_leafWetness_two_tier)
next
  assume a: "temperature (last (sensorData s)) = Some (Fin 5)
            \<and> (\<forall>m. soilMoisture1 (last (sensorData s)) \<noteq> MNum m)
            \<and> (\<forall>m. soilMoisture2 (last (sensorData s)) \<noteq> MNum m)
            \<and> (\<forall>m. leafWetness (last (sensorData s)) \<noteq> MNum m)"
  then have "response_alerts (fst (get_api_alerts s)) = check_temperature (last (sensorData s))"
    using only_temperature_alerts[OF assms] by blast
  with a show "map (\<lambda>a. (metric a, severity a)) (response_alerts (fst (get_api_alerts s)))
            = [(''temperature'', ''critical'')]"
    by (simp add: check_temperature_def ranges_temperature_def)
next
  assume "temperature (last (sensorData s)) = Some (Fin 27)"
  then show "map (\<lambda>a. (metric a, severity a))
              (filter (\<lambda>a. metric a = ''temperature'') (response_alerts (fst (get_api_alerts s))))
            = [(''temperature'', ''warning'')]"
    by (simp add: temperature_response_alerts[OF assms] check_temperature_def
                  ranges_temperature_def num_gt_def)
qed

theorem C8_alert_severity_witness:
  "map (\<lambda>a. (metric a, severity a, alert_value a))
     (filter (\<lambda>a. metric a = ''temperature'') (response_alerts (fst (get_api_alerts
        \<lparr> sensorData = [\<lparr> timestamp = 0, raw = JNull, temperature = Some (Fin 27),
                           humidity = None, soilMoisture1 = MNum (Fin 10),
                           soilMoisture2 = MNum (Fin 45), leafWetness = MNum (Fin 90),
                           stationtype = JUndefined, passkey = JUndefined,
                           dateutc = JUndefined \<rparr>],
          lastRawData = None \<rparr>))))
   = [(''temperature'', ''warning'', Fin 27)]
   \<and> map (\<lambda>a. (metric a, severity a, alert_value a))
     (filter (\<lambda>a. metric a = ''soilMoisture1'') (response_alerts (fst (get_api_alerts
        \<lparr> sensorData = [\<lparr> timestamp = 0, raw = JNull, temperature = Some (Fin 27),
                           humidity = None, soilMoisture1 = MNum (Fin 10),
                           soilMoisture2 = MNum (Fin 45), leafWetness = MNum (Fin 90),
                           stationtype = JUndefined, passkey = JUndefined,
                           dateutc = JUndefined \<rparr>],
          lastRawData = None \<rparr>))))
   = [(''soilMoisture1'', ''critical'', Fin 10)]
   \<and> map (\<lambda>a. (metric a, severity a, alert_value a))
     (filter (\<lambda>a. metric a = ''soilMoisture2'') (response_alerts (fst (get_api_alerts
        \<lparr> sensorData = [\<lparr> timestamp = 0, raw = JNull, temperature = Some (Fin 27),
                           humidity = None, soilMoisture1 = MNum (Fin 10),
                           soilMoisture2 = MNum (Fin 45), leafWetness = MNum (Fin 90),
                           stationtype = JUndefined, passkey = JUndefined,
                           dateutc = JUndefined \<rparr>],
          lastRawData = None \<rparr>))))
   = []
   \<and> map (\<lambda>a. (metric a, severity a, alert_value a))
     (filter (\<lambda>a. metric a = ''leafWetness'') (response_alerts (fst (get_api_alerts
        \<lparr> sensorData = [\<lparr> timestamp = 0, raw = JNull, temperature = Some (Fin 27),
                           humidity = None, soilMoisture1 = MNum (Fin 10),
                           soilMoisture2 = MNum (Fin 45), leafWetness = MNum (Fin 90),
                           stationtype = JUndefined, passkey = JUndefined,
                           dateutc = JUndefined \<rparr>],
          lastRawData = None \<rparr>))))
   = [(''leafWetness'', ''critical'', Fin 90)]"
  using C8_alert_severity[of
        "\<lparr> sensorData = [\<lparr> timestamp = 0, raw = JNull, temperature = Some (Fin 27),
                           humidity = None, soilMoisture1 = MNum (Fin 10),
                           soilMoisture2 = MNum (Fin 45), leafWetness = MNum (Fin 90),
                           stationtype = JUndefined, passkey = JUndefined,
                           dateutc = JUndefined \<rparr>],
          lastRawData = None \<rparr>"]
  by (simp add: two_tier_def outside_band_def num_gt_def)

subsection \<open>The read routes\<close>

lemma run_read_state: "snd (run_read now c s) = s"
  by (cases c)
     (simp_all add: get_api_data_latest_def get_api_data_stats_def get_api_alerts_def Let_def
               split: prod.splits)

text \<open>
  C9: any sequence of latest, stats and alerts requests served at one clock reading
  leaves the state as it was, and each request gets the response it would get as the
  first one.
\<close>

theorem C9_reads_idempotent:
  "run_reads now cs s = (map (\<lambda>c. fst (run_read now c s)) cs, s)"
proof (induction cs)
  case Nil
  show ?case by simp
next
  case (Cons c cs)
  obtain r s' where rs: "run_read now c s = (r, s')" by (cases "run_read now c s")
  with run_read_state[of now c s] have "s' = s" by simp
  with rs Cons show ?case by simp
qed

theorem C9_reads_idempotent_witness:
  "run_reads 0 [GetLatest, GetAlerts, GetStats None, GetLatest, GetAlerts, GetStats None]
      \<lparr> sensorData = [\<lparr> timestamp = 0, raw = JNull, temperature = Some (Fin 27),
                         humidity = None, soilMoisture1 = MNull, soilMoisture2 = MNull,
                         leafWetness = MNull, stationtype = JUndefined, passkey = JUndefined,
                         dateutc = JUndefined \<rparr>],
        lastRawData = None \<rparr>
   = ([RLatest (LatestReading
                 \<lparr> timestamp = 0, raw = JNull, temperature = Some (Fin 27),
                    humidity = None, soilMoisture1 = MNull, soilMoisture2 = MNull,
                    leafWetness = MNull, stationtype = JUndefined, passkey = JUndefined,
                    dateutc = JUndefined \<rparr>),
       RAlerts (AlertsData 1
                 [\<lparr> metric = ''temperature'', alert_value = Fin 27, severity = ''warning'',
                     message = Message ''Temperature outside ideal range at '' (Fin 27)
                                 degrees_celsius \<rparr>] 0),
       RStats (StatsData
                 \<lparr> ss_temperature =
                      Some \<lparr> st_min = MNum (Fin 27), st_max = MNum (Fin 27), st_avg = Fin 27,
                             st_median = MNum (Fin 27), st_count = 1 \<rparr>,
                    ss_soilMoisture1 = None, ss_soilMoisture2 = None, ss_leafWetness = None,
                    ss_count = 1, ss_start = 0, ss_end = 0 \<rparr>),
       RLatest (LatestReading
                 \<lparr> timestamp = 0, raw = JNull, temperature = Some (Fin 27),
                    humidity = None, soilMoisture1 = MNull, soilMoisture2 = MNull,
                    leafWetness = MNull, stationtype = JUndefined, passkey = JUndefined,
                    dateutc = JUndefined \<rparr>),
       RAlerts (AlertsData 1
                 [\<lparr> metric = ''temperature'', alert_value = Fin 27, severity = ''warning'',
                     message = Message ''Temperature outside ideal range at '' (Fin 27)
                                 degrees_celsius \<rparr>] 0),
       RStats (StatsData
                 \<lparr> ss_temperature =
                      Some \<lparr> st_min = MNum (Fin 27), st_max = MNum (Fin 27), st_avg = Fin 27,
                             st_median = MNum (Fin 27), st_count = 1 \<rparr>,
                    ss_soilMoisture1 = None, ss_soilMoisture2 = None, ss_leafWetness = None,
                    ss_count = 1, ss_start = 0, ss_end = 0 \<rparr>)],
      \<lparr> sensorData = [\<lparr> timestamp = 0, raw = JNull, temperature = Some (Fin 27),
                         humidity = None, soilMoisture1 = MNull, soilMoisture2 = MNull,
                         leafWetness = MNull, stationtype = JUndefined, passkey = JUndefined,
                         dateutc = JUndefined \<rparr>],
        lastRawData = None \<rparr>)"
  using C9_reads_idempotent[of 0
      "[GetLatest, GetAlerts, GetStats None, GetLatest, GetAlerts, GetStats None]"
      "\<lparr> sensorData = [\<lparr> timestamp = 0, raw = JNull, temperature = Some (Fin 27),
                         humidity = None, soilMoisture1 = MNull, soilMoisture2 = MNull,
                         leafWetness = MNull, stationtype = JUndefined, passkey = JUndefined,
                         dateutc = JUndefined \<rparr>],
        lastRawData = None \<rparr>"]
  by (simp add: get_api_data_latest_def get_api_alerts_def get_api_data_stats_def alert_defs
                array_sort_def cutoffTime_def not_before_def num_ge_def num_sub_def
                calculateStats_def sort_values_def List.map_filter_def Let_def)

lemma history_readings:
  "hr_readings (fst (get_api_data_history now limit hours s))
   = array_slice (num_neg (limitNum limit)) (filter_by_hours now hours (sensorData s))"
  by (simp add: get_api_data_history_def Let_def)

lemma history_count:
  "hr_count (fst (get_api_data_history now limit hours s))
   = length (hr_readings (fst (get_api_data_history now limit hours s)))"
  by (simp add: get_api_data_history_def Let_def)

lemma array_slice_int:
  "array_slice (Fin (of_int m)) xs =
     (if m < 0 then drop (nat (max (int (length xs) + m) 0)) xs
      else drop (nat (min m (int (length xs)))) xs)"
  by (simp add: Let_def)

lemma num_neg_int: "num_neg (Fin (of_int n)) = Fin (of_int (- n))"
  by simp

lemma filter_by_hours_filter:
  "\<exists>P. filter_by_hours now hours xs = filter P xs"
proof (cases "\<exists>h. hours = Some h \<and> h \<noteq> []")
  case True
  then show ?thesis by (auto simp: filter_by_hours_def)
next
  case False
  then have "filter_by_hours now hours xs = filter (\<lambda>r. True) xs"
    by (cases hours) (auto simp: filter_by_hours_def)
  then show ?thesis by blast
qed

lemmas int_defs = limitNum_def parse_int_str_def has_prefix_def is_radix_digit_def radix_digit_def
  radix_value_def is_space_def Let_def

text \<open>
  C10 as the claim states it fails: the limit \<open>-1\<close> is neither \<open>0\<close> nor non-numeric,
  and on three readings the route returns two, more than the requested limit.
\<close>

theorem C10_negative_limit_counterexample:
  "limitNum (Some ''-1'') \<noteq> Fin 0 \<and> limitNum (Some ''-1'') \<noteq> NaN
   \<and> num_gt
       (Fin (of_nat (hr_count (fst (get_api_data_history 0 (Some ''-1'') None
          \<lparr> sensorData =
              [\<lparr> timestamp = 1, raw = JNull, temperature = Some (Fin 20), humidity = None,
                  soilMoisture1 = MNull, soilMoisture2 = MNull, leafWetness = MNull,
                  stationtype = JUndefined, passkey = JUndefined, dateutc = JUndefined \<rparr>,
               \<lparr> timestamp = 2, raw = JNull, temperature = Some (Fin 21), humidity = None,
                  soilMoisture1 = MNull, soilMoisture2 = MNull, leafWetness = MNull,
                  stationtype = JUndefined, passkey = JUndefined, dateutc = JUndefined \<rparr>,
               \<lparr> timestamp = 3, raw = JNull, temperature = Some (Fin 22), humidity = None,
                  soilMoisture1 = MNull, soilMoisture2 = MNull, leafWetness = MNull,
                  stationtype = JUndefined, passkey = JUndefined, dateutc = JUndefined \<rparr>],
             lastRawData = None \<rparr>)))))
       (limitNum (Some ''-1''))"
  by (simp add: int_defs get_api_data_history_def filter_by_hours_def num_gt_def)

text \<open>
  C10, amended: a limit that parses to \<open>0\<close> or to NaN returns the whole time-filtered
  history, in store order; a limit that parses to a positive \<open>n\<close> returns the last \<open>n\<close>
  of it, at most \<open>n\<close> readings; a limit that parses to a negative \<open>n\<close> returns all of
  it but the first \<open>-n\<close>.
\<close>

theorem C10_history_degenerate_limit:
  "(limitNum limit = Fin 0 \<or> limitNum limit = NaN \<longrightarrow>
      hr_readings (fst (get_api_data_history now limit hours s))
      = filter_by_hours now hours (sensorData s))
   \<and> (\<exists>P. filter_by_hours now hours (sensorData s) = filter P (sensorData s))
   \<and> (\<forall>n. limitNum limit = Fin (of_int n) \<and> 0 < n \<longrightarrow>
      hr_readings (fst (get_api_data_history now limit hours s))
      = drop (length (filter_by_hours now hours (sensorData s)) - nat n)
          (filter_by_hours now hours (sensorData s))
      \<and> hr_count (fst (get_api_data_history now limit hours s)) \<le> nat n)
   \<and> (\<forall>n. limitNum limit = Fin (of_int n) \<and> n < 0 \<longrightarrow>
      hr_readings (fst (get_api_data_history now limit hours s))
      = drop (nat (- n)) (filter_by_hours now hours (sensorData s)))"
proof (intro conjI allI impI)
  assume "limitNum limit = Fin 0 \<or> limitNum limit = NaN"
  then show "hr_readings (fst (get_api_data_history now limit hours s))
      = filter_by_hours now hours (sensorData s)"
    by (auto simp: history_readings)
next
  show "\<exists>P. filter_by_hours now hours (sensorData s) = filter P (sensorData s)"
    by (rule filter_by_hours_filter)
next
  fix n :: int
  assume a: "limitNum limit = Fin (of_int n) \<and> 0 < n"
  let ?f = "filter_by_hours now hours (sensorData s)"
  have k: "nat (max (int (length ?f) + - n) 0) = length ?f - nat n" using a by auto
  from a have "hr_readings (fst (get_api_data_history now limit hours s))
      = array_slice (Fin (of_int (- n))) ?f"
    by (simp only: history_readings num_neg_int)
  with a k show r: "hr_readings (fst (get_api_data_history now limit hours s))
      = drop (length ?f - nat n) ?f"
    by (simp only: array_slice_int) simp
  show "hr_count (fst (get_api_data_history now limit hours s)) \<le> nat n"
    unfolding history_count r by simp
next
  fix n :: int
  assume a: "limitNum limit = Fin (of_int n) \<and> n < 0"
  let ?f = "filter_by_hours now hours (sensorData s)"
  have "drop (nat (min (- n) (int (length ?f)))) ?f = drop (nat (- n)) ?f"
    by (cases "- n \<le> int (length ?f)") (simp_all add: min_def)
  moreover from a have "hr_readings (fst (get_api_data_history now limit hours s))
      = array_slice (Fin (of_int (- n))) ?f"
    by (simp only: history_readings num_neg_int)
  ultimately show "hr_readings (fst (get_api_data_history now limit hours s)) = drop (nat (- n)) ?f"
    using a by (simp only: array_slice_int) simp
qed


theorem C10_history_degenerate_limit_witness:
  "map (\<lambda>limit. map timestamp (hr_readings (fst (get_api_data_history 0 limit None
      \<lparr> sensorData =
          [\<lparr> timestamp = 1, raw = JNull, temperature = Some (Fin 20), humidity = None,
              soilMoisture1 = MNull, soilMoisture2 = MNull, leafWetness = MNull,
              stationtype = JUndefined, passkey = JUndefined, dateutc = JUndefined \<rparr>,
           \<lparr> timestamp = 2, raw = JNull, temperature = Some (Fin 21), humidity = None,
              soilMoisture1 = MNull, soilMoisture2 = MNull, leafWetness = MNull,
              stationtype = JUndefined, passkey = JUndefined, dateutc = JUndefined \<rparr>,
           \<lparr> timestamp = 3, raw = JNull, temperature = Some (Fin 22), humidity = None,
              soilMoisture1 = MNull, soilMoisture2 = MNull, leafWetness = MNull,
              stationtype = JUndefined, passkey = JUndefined, dateutc = JUndefined \<rparr>],
         lastRawData = None \<rparr>))))
      [Some ''0'', Some ''abc'', Some ''2'', Some ''-1'']
   = [[1, 2, 3], [1, 2, 3], [2, 3], [2, 3]]"
proof -
  let ?s = "\<lparr> sensorData =
          [\<lparr> timestamp = 1, raw = JNull, temperature = Some (Fin 20), humidity = None,
              soilMoisture1 = MNull, soilMoisture2 = MNull, leafWetness = MNull,
              stationtype = JUndefined, passkey = JUndefined, dateutc = JUndefined \<rparr>,
           \<lparr> timestamp = 2, raw = JNull, temperature = Some (Fin 21), humidity = None,
              soilMoisture1 = MNull, soilMoisture2 = MNull, leafWetness = MNull,
              stationtype = JUndefined, passkey = JUndefined, dateutc = JUndefined \<rparr>,
           \<lparr> timestamp = 3, raw = JNull, temperature = Some (Fin 22), humidity = None,
              soilMoisture1 = MNull, soilMoisture2 = MNull, leafWetness = MNull,
              stationtype = JUndefined, passkey = JUndefined, dateutc = JUndefined \<rparr>],
         lastRawData = None \<rparr>"
  let ?get = "\<lambda>limit. hr_readings (fst (get_api_data_history 0 limit None ?s))"
  have l0: "limitNum (Some ''0'') = Fin 0" and la: "limitNum (Some ''abc'') = NaN"
    and l2: "limitNum (Some ''2'') = Fin (of_int 2)"
    and lm: "limitNum (Some ''-1'') = Fin (of_int (- 1))"
    by (simp_all add: int_defs)
  have "?get (Some ''0'') = filter_by_hours 0 None (sensorData ?s)"
    using C10_history_degenerate_limit[of "Some ''0''" 0 None ?s] l0 by blast
  moreover have "?get (Some ''abc'') = filter_by_hours 0 None (sensorData ?s)"
    using C10_history_degenerate_limit[of "Some ''abc''" 0 None ?s] la by blast
  moreover have "?get (Some ''2'')
      = drop (length (filter_by_hours 0 None (sensorData ?s)) - nat 2)
          (filter_by_hours 0 None (sensorData ?s))"
    using C10_history_degenerate_limit[of "Some ''2''" 0 None ?s,
            THEN conjunct2, THEN conjunct2, THEN conjunct1, THEN spec, of 2] l2
    by simp
  moreover have "?get (Some ''-1'') = drop (nat (- (- 1))) (filter_by_hours 0 None (sensorData ?s))"
    using C10_history_degenerate_limit[of "Some ''-1''" 0 None ?s,
            THEN conjunct2, THEN conjunct2, THEN conjunct2, THEN spec, of "- 1"] lm
    by simp
  ultimately show ?thesis by (simp add: filter_by_hours_def)
qed

end
